theory Spec2Isabelle
  imports Main "HOL-Library.Monad_Syntax"
begin

section \<open>Values\<close>

text \<open>
  JavaScript values as far as the client handles them.  Numbers are restricted to
  integers.  A string is a list of code units up to 255.  An object is an association list
  in insertion order with unique keys, the order \<^verbatim>\<open>Object.keys\<close> and \<^verbatim>\<open>JSON.stringify\<close>
  follow for keys that are not array indices; JavaScript lists array indices first, and
  the objects here are taken to have no such key.  The closures which record
  hydration installs are kept symbolically in \<open>closure\<close>: what they would call when
  invoked.
\<close>

datatype closure =
    ReadRecord string json
  | UpdateRecord string json
  | DeleteRecord string json
  | LinkGet string json
and json =
    JUndef
  | JNull
  | JBool bool
  | JNum int
  | JStr string
  | JArr "json list"
  | JObj "(string \<times> json) list"
  | JFun closure

type_synonym obj = "(string \<times> json) list"

text \<open>\<^verbatim>\<open>a ?? b\<close>\<close>

fun nullish :: "json \<Rightarrow> bool" where
  "nullish JUndef = True"
| "nullish JNull = True"
| "nullish _ = False"

definition coalesce :: "json \<Rightarrow> json \<Rightarrow> json" where
  "coalesce a b = (if nullish a then b else a)"

text \<open>Truthiness, as \<^verbatim>\<open>if (v)\<close> and \<^verbatim>\<open>!v\<close> test it.\<close>

fun truthy :: "json \<Rightarrow> bool" where
  "truthy JUndef = False"
| "truthy JNull = False"
| "truthy (JBool b) = b"
| "truthy (JNum n) = (n \<noteq> 0)"
| "truthy (JStr s) = (s \<noteq> [])"
| "truthy (JArr _) = True"
| "truthy (JObj _) = True"
| "truthy (JFun _) = True"

text \<open>Reading a property: \<^verbatim>\<open>o[k]\<close>, and \<^verbatim>\<open>o?.[k]\<close> on an absent object.\<close>

fun lookup :: "obj \<Rightarrow> string \<Rightarrow> json" where
  "lookup [] k = JUndef"
| "lookup ((k', v) # kvs) k = (if k' = k then v else lookup kvs k)"

fun get_prop :: "json \<Rightarrow> string \<Rightarrow> json" where
  "get_prop (JObj kvs) k = lookup kvs k"
| "get_prop _ k = JUndef"

text \<open>
  Writing a property: \<^verbatim>\<open>o[k] = v\<close>.  An existing key keeps its position, a new key goes
  to the end.
\<close>

fun assign :: "obj \<Rightarrow> string \<Rightarrow> json \<Rightarrow> obj" where
  "assign [] k v = [(k, v)]"
| "assign ((k', v') # kvs) k v = (if k' = k then (k, v) # kvs else (k', v') # assign kvs k v)"

definition keys :: "obj \<Rightarrow> string list" where
  "keys kvs = map fst kvs"

section \<open>Query options and the Query constructor (schema/query.ts)\<close>

text \<open>
  \<^verbatim>\<open>QueryOptions\<close>: every field may be absent.  The filter is an object or absent
  (\<open>None\<close>); the other fields are values, \<open>JUndef\<close> when absent.
\<close>

record options =
  o_filter :: "obj option"
  o_sort :: json
  o_columns :: json
  o_pagination :: json
  o_cache :: json

definition no_options :: options where
  "no_options = \<lparr>o_filter = None, o_sort = JUndef, o_columns = JUndef,
     o_pagination = JUndef, o_cache = JUndef\<rparr>"

text \<open>\<^verbatim>\<open>data.filter?.[k]\<close> and \<^verbatim>\<open>parent?.filter?.[k]\<close>\<close>

definition filter_prop :: "options \<Rightarrow> string \<Rightarrow> json" where
  "filter_prop d k = (case o_filter d of None \<Rightarrow> JUndef | Some f \<Rightarrow> lookup f k)"

definition parent_filter_prop :: "options option \<Rightarrow> string \<Rightarrow> json" where
  "parent_filter_prop p k = (case p of None \<Rightarrow> JUndef | Some d \<Rightarrow> filter_prop d k)"

definition parent_field :: "options option \<Rightarrow> (options \<Rightarrow> json) \<Rightarrow> json" where
  "parent_field p fld = (case p of None \<Rightarrow> JUndef | Some d \<Rightarrow> fld d)"

text \<open>
  A query: the table and the private \<^verbatim>\<open>#data\<close>.  The repository reference plays no part
  in how the options are built and is left out.
\<close>

record query =
  q_table :: string
  q_data :: options

text \<open>
  The constructor assigns \<^verbatim>\<open>$any\<close>, \<^verbatim>\<open>$all\<close>, \<^verbatim>\<open>$not\<close>, \<^verbatim>\<open>$none\<close> on the object
  \<^verbatim>\<open>data.filter ?? parent?.filter ?? {}\<close>, which is the caller's own object when one
  was passed.  So the constructor returns, beside the new query, what \<^verbatim>\<open>data\<close> and
  \<^verbatim>\<open>parent\<close> hold after it ran.
\<close>

datatype shared = OfData | OfParent | Fresh

record constructed =
  c_query :: query
  c_data :: options
  c_parent :: "options option"

definition filter_alias :: "options \<Rightarrow> options option \<Rightarrow> shared \<times> obj" where
  "filter_alias d p =
     (case o_filter d of
        Some f \<Rightarrow> (OfData, f)
      | None \<Rightarrow>
         (case p of
            None \<Rightarrow> (Fresh, [])
          | Some pd \<Rightarrow> (case o_filter pd of Some f \<Rightarrow> (OfParent, f) | None \<Rightarrow> (Fresh, []))))"

definition combinator :: "options \<Rightarrow> options option \<Rightarrow> string \<Rightarrow> json" where
  "combinator d p k = coalesce (filter_prop d k) (parent_filter_prop p k)"

definition Query_new :: "string \<Rightarrow> options \<Rightarrow> options option \<Rightarrow> constructed" where
  "Query_new table d p =
     (let (al, f0) = filter_alias d p;
          f1 = assign f0 ''$any'' (combinator d p ''$any'');
          f2 = assign f1 ''$all'' (combinator d p ''$all'');
          f3 = assign f2 ''$not'' (combinator d p ''$not'');
          f4 = assign f3 ''$none'' (combinator d p ''$none'');
          this = \<lparr>o_filter = Some f4,
                  o_sort = coalesce (o_sort d) (parent_field p o_sort),
                  o_columns = coalesce (coalesce (o_columns d) (parent_field p o_columns))
                                (JArr [JStr ''*'']),
                  o_pagination = coalesce (o_pagination d) (parent_field p o_pagination),
                  o_cache = coalesce (o_cache d) (parent_field p o_cache)\<rparr>
      in \<lparr>c_query = \<lparr>q_table = table, q_data = this\<rparr>,
          c_data = (if al = OfData then d\<lparr>o_filter := Some f4\<rparr> else d),
          c_parent = (if al = OfParent then map_option (\<lambda>pd. pd\<lparr>o_filter := Some f4\<rparr>) p
                      else p)\<rparr>)"

definition getQueryOptions :: "query \<Rightarrow> options" where
  "getQueryOptions q = q_data q"

text \<open>\<^verbatim>\<open>query.getQueryOptions().filter ?? {}\<close>\<close>

definition filter_of :: "query \<Rightarrow> json" where
  "filter_of q = (case o_filter (getQueryOptions q) of None \<Rightarrow> JObj [] | Some f \<Rightarrow> JObj f)"

subsection \<open>The builder methods\<close>

text \<open>A derived query is constructed from \<^verbatim>\<open>data\<close> with \<^verbatim>\<open>this.#data\<close> as parent.\<close>

definition derive :: "query \<Rightarrow> options \<Rightarrow> constructed" where
  "derive q d = Query_new (q_table q) d (Some (q_data q))"

definition any_q :: "query \<Rightarrow> query list \<Rightarrow> constructed" where
  "any_q q queries =
     derive q (no_options\<lparr>o_filter := Some [(''$any'', JArr (map filter_of queries))]\<rparr>)"

definition all_q :: "query \<Rightarrow> query list \<Rightarrow> constructed" where
  "all_q q queries =
     derive q (no_options\<lparr>o_filter := Some [(''$all'', JArr (map filter_of queries))]\<rparr>)"

definition not_q :: "query \<Rightarrow> query list \<Rightarrow> constructed" where
  "not_q q queries =
     derive q (no_options\<lparr>o_filter := Some [(''$not'', JArr (map filter_of queries))]\<rparr>)"

definition none_q :: "query \<Rightarrow> query list \<Rightarrow> constructed" where
  "none_q q queries =
     derive q (no_options\<lparr>o_filter := Some [(''$none'', JArr (map filter_of queries))]\<rparr>)"

text \<open>\<^verbatim>\<open>Array.prototype.flat()\<close>, one level deep.\<close>

fun flat :: "json list \<Rightarrow> json list" where
  "flat [] = []"
| "flat (JArr xs # rest) = xs @ flat rest"
| "flat (x # rest) = x # flat rest"

text \<open>
  Modelled from the spec: \<^verbatim>\<open>compact\<close> of \<^verbatim>\<open>util/lang\<close> is not among the sources.  The
  spec says that \<^verbatim>\<open>filter\<close> "merges into the current \<^verbatim>\<open>$all\<close> conjunction list
  (appends, never replaces)"; so \<open>compact\<close> only drops the null and undefined
  entries, which is what lets a query without an \<^verbatim>\<open>$all\<close> start from the empty list.
\<close>

definition compact :: "json list \<Rightarrow> json list" where
  "compact xs = filter (\<lambda>x. \<not> nullish x) xs"

text \<open>\<^verbatim>\<open>filter(column, value)\<close> and \<^verbatim>\<open>filter(constraints)\<close>\<close>

definition filter_q :: "query \<Rightarrow> string \<Rightarrow> json \<Rightarrow> constructed" where
  "filter_q q a b =
     (let all = compact (flat [filter_prop (q_data q) ''$all''] @ [JObj [(a, b)]])
      in derive q (no_options\<lparr>o_filter := Some [(''$all'', JArr all)]\<rparr>))"

definition filter_obj :: "query \<Rightarrow> obj \<Rightarrow> constructed" where
  "filter_obj q a =
     (let constraints = map (\<lambda>(column, constraint). JObj [(column, constraint)]) a;
          all = compact (flat [filter_prop (q_data q) ''$all''] @ constraints)
      in derive q (no_options\<lparr>o_filter := Some [(''$all'', JArr all)]\<rparr>))"

definition sort_q :: "query \<Rightarrow> string \<Rightarrow> string \<Rightarrow> constructed" where
  "sort_q q column direction =
     (let originalSort = flat [coalesce (o_sort (q_data q)) (JArr [])];
          sort = originalSort @ [JObj [(''column'', JStr column), (''direction'', JStr direction)]]
      in derive q (no_options\<lparr>o_sort := JArr sort\<rparr>))"

definition select_q :: "query \<Rightarrow> json \<Rightarrow> constructed" where
  "select_q q cols = derive q (no_options\<lparr>o_columns := cols\<rparr>)"

definition cache_q :: "query \<Rightarrow> json \<Rightarrow> constructed" where
  "cache_q q ttl = derive q (no_options\<lparr>o_cache := ttl\<rparr>)"

text \<open>
  What the constructor establishes for every query: the filter object is present and
  carries the four combinator keys, and the columns are set.
\<close>

definition Query_inv :: "query \<Rightarrow> bool" where
  "Query_inv q =
     ((case o_filter (q_data q) of
         None \<Rightarrow> False
       | Some f \<Rightarrow> list_all (\<lambda>k. k \<in> set (keys f)) [''$any'', ''$all'', ''$not'', ''$none''])
      \<and> \<not> nullish (o_columns (q_data q)))"

text \<open>
  The \<^verbatim>\<open>$all\<close> conjunction list of a query: empty when \<^verbatim>\<open>$all\<close> is absent; none
  (\<open>None\<close>) when \<^verbatim>\<open>$all\<close> is not a list or holds a null or undefined entry.
\<close>

definition all_list :: "query \<Rightarrow> json list option" where
  "all_list q =
     (case filter_prop (q_data q) ''$all'' of
        JUndef \<Rightarrow> Some []
      | JArr xs \<Rightarrow> (if list_all (\<lambda>x. \<not> nullish x) xs then Some xs else None)
      | _ \<Rightarrow> None)"

text \<open>The query a repository starts from: no data, no parent.\<close>

definition base_query :: "string \<Rightarrow> query" where
  "base_query table = c_query (Query_new table no_options None)"

section \<open>The cache key (Query.key)\<close>

text \<open>
  \<^verbatim>\<open>JSON.stringify\<close> on the values above.  A member whose value is undefined or a function
  is left out of an object; inside an array such a value is written \<^verbatim>\<open>null\<close>, and that
  is what \<open>stringify\<close> gives for it, since \<open>key\<close> serializes an object.  Members are
  written in the object's own key order.

  A number is written with all its digits when it is an integer of magnitude up to
  \<open>2 ^ 53\<close>: these are the integers that a JavaScript number holds exactly, and they are
  below the \<open>10 ^ 21\<close> from which on the exponent form is used.  Other numbers are not
  covered: \<open>None\<close>.

  A character is a code unit up to 255.  In a string the double quote, the backslash and
  the control characters are escaped, the latter as \<^verbatim>\<open>\b\<close>, \<^verbatim>\<open>\t\<close>, \<^verbatim>\<open>\n\<close>, \<^verbatim>\<open>\f\<close>,
  \<^verbatim>\<open>\r\<close> or with four hexadecimal digits.
\<close>

definition digit_char :: "nat \<Rightarrow> char" where
  "digit_char n = ''0123456789'' ! (n mod 10)"

fun show_nat :: "nat \<Rightarrow> string" where
  "show_nat n = (if n < 10 then [digit_char n] else show_nat (n div 10) @ [digit_char n])"

definition show_int :: "int \<Rightarrow> string option" where
  "show_int i =
     (if \<bar>i\<bar> > 9007199254740992 then None
      else if i < 0 then Some (CHR ''-'' # show_nat (nat (- i)))
      else Some (show_nat (nat i)))"

definition hex_char :: "nat \<Rightarrow> char" where
  "hex_char n = ''0123456789abcdef'' ! (n mod 16)"

definition escape_char :: "char \<Rightarrow> string" where
  "escape_char c =
     (let n = (of_char c :: nat) in
      if c = CHR 0x22 then [CHR 0x5C, CHR 0x22]
      else if c = CHR 0x5C then [CHR 0x5C, CHR 0x5C]
      else if n = 8 then [CHR 0x5C, CHR ''b'']
      else if n = 9 then [CHR 0x5C, CHR ''t'']
      else if n = 10 then [CHR 0x5C, CHR ''n'']
      else if n = 12 then [CHR 0x5C, CHR ''f'']
      else if n = 13 then [CHR 0x5C, CHR ''r'']
      else if n < 32 then
        [CHR 0x5C, CHR ''u'', CHR ''0'', CHR ''0'', hex_char (n div 16), hex_char (n mod 16)]
      else [c])"

definition quote :: "string \<Rightarrow> string" where
  "quote s = [CHR 0x22] @ concat (map escape_char s) @ [CHR 0x22]"

fun omitted :: "json \<Rightarrow> bool" where
  "omitted JUndef = True"
| "omitted (JFun _) = True"
| "omitted _ = False"

fun commas :: "string list \<Rightarrow> string" where
  "commas [] = []"
| "commas [s] = s"
| "commas (s # rest) = s @ '','' @ commas rest"

fun stringify :: "json \<Rightarrow> string option"
  and stringify_elements :: "json list \<Rightarrow> string list option"
  and stringify_members :: "(string \<times> json) list \<Rightarrow> string list option" where
  "stringify JUndef = Some ''null''"
| "stringify (JFun _) = Some ''null''"
| "stringify JNull = Some ''null''"
| "stringify (JBool b) = Some (if b then ''true'' else ''false'')"
| "stringify (JNum n) = show_int n"
| "stringify (JStr s) = Some (quote s)"
| "stringify (JArr xs) = map_option (\<lambda>es. ''['' @ commas es @ '']'') (stringify_elements xs)"
| "stringify (JObj kvs) = map_option (\<lambda>ms. ''{'' @ commas ms @ ''}'') (stringify_members kvs)"
| "stringify_elements [] = Some []"
| "stringify_elements (x # xs) =
     (case stringify x of
        None \<Rightarrow> None
      | Some s \<Rightarrow> map_option (\<lambda>es. s # es) (stringify_elements xs))"
| "stringify_members [] = Some []"
| "stringify_members ((k, v) # kvs) =
     (if omitted v then stringify_members kvs
      else (case stringify v of
              None \<Rightarrow> None
            | Some s \<Rightarrow> map_option (\<lambda>ms. (quote k @ '':'' @ s) # ms) (stringify_members kvs)))"

text \<open>
  Modelled from the spec: \<^verbatim>\<open>toBase64\<close> of \<^verbatim>\<open>util/lang\<close> is not among the sources.  The
  spec calls the fingerprint a "deterministic string derived from a query's fully
  resolved options"; \<open>toBase64\<close> is taken to be the standard Base64 encoding of the
  string's code units as bytes.
\<close>

definition base64_alphabet :: string where
  "base64_alphabet = ''ABCDEFGHIJKLMNOPQRSTUVWXYZabcdefghijklmnopqrstuvwxyz0123456789+/''"

definition sextet :: "nat \<Rightarrow> char" where
  "sextet n = base64_alphabet ! (n mod 64)"

fun base64_bytes :: "nat list \<Rightarrow> string" where
  "base64_bytes (a # b # c # rest) =
     [sextet (a div 4), sextet ((a mod 4) * 16 + b div 16),
      sextet ((b mod 16) * 4 + c div 64), sextet (c mod 64)] @ base64_bytes rest"
| "base64_bytes [a, b] =
     [sextet (a div 4), sextet ((a mod 4) * 16 + b div 16), sextet ((b mod 16) * 4), CHR ''='']"
| "base64_bytes [a] = [sextet (a div 4), sextet ((a mod 4) * 16), CHR ''='', CHR ''='']"
| "base64_bytes [] = []"

definition toBase64 :: "string \<Rightarrow> string" where
  "toBase64 s = base64_bytes (map of_char s)"

text \<open>
  \<^verbatim>\<open>key()\<close>: the destructuring defaults apply to an undefined field only.
\<close>

definition default_to :: "json \<Rightarrow> json \<Rightarrow> json" where
  "default_to v d = (if v = JUndef then d else v)"

definition key_object :: "query \<Rightarrow> json" where
  "key_object q =
     JObj [(''columns'', default_to (o_columns (q_data q)) (JArr [])),
           (''filter'', (case o_filter (q_data q) of None \<Rightarrow> JObj [] | Some f \<Rightarrow> JObj f)),
           (''sort'', default_to (o_sort (q_data q)) (JArr [])),
           (''pagination'', default_to (o_pagination (q_data q)) (JObj []))]"

definition key :: "query \<Rightarrow> string option" where
  "key q = map_option toBase64 (stringify (key_object q))"

text \<open>
  The text that \<open>key\<close> encodes, written out: the four members in the order
  \<^verbatim>\<open>columns\<close>, \<^verbatim>\<open>filter\<close>, \<^verbatim>\<open>sort\<close>, \<^verbatim>\<open>pagination\<close>, each with its own serialization.
\<close>

definition key_text :: "query \<Rightarrow> string option" where
  "key_text q =
     (case stringify (default_to (o_columns (q_data q)) (JArr [])) of None \<Rightarrow> None | Some c \<Rightarrow>
      case stringify (case o_filter (q_data q) of None \<Rightarrow> JObj [] | Some f \<Rightarrow> JObj f) of
        None \<Rightarrow> None | Some f \<Rightarrow>
      case stringify (default_to (o_sort (q_data q)) (JArr [])) of None \<Rightarrow> None | Some s \<Rightarrow>
      case stringify (default_to (o_pagination (q_data q)) (JObj [])) of None \<Rightarrow> None | Some p \<Rightarrow>
        Some (''{\"columns\":'' @ c @ '',\"filter\":'' @ f @ '',\"sort\":'' @ s
              @ '',\"pagination\":'' @ p @ ''}''))"

text \<open>
  Two objects with the same members, whatever the order of their keys; and two queries
  whose resolved columns, filter, sort and pagination are the same in that sense.
\<close>

definition same_members :: "obj \<Rightarrow> obj \<Rightarrow> bool" where
  "same_members f g =
     (set (keys f) = set (keys g) \<and> list_all (\<lambda>k. lookup f k = lookup g k) (keys f))"

definition same_resolved :: "query \<Rightarrow> query \<Rightarrow> bool" where
  "same_resolved q1 q2 =
     (o_columns (q_data q1) = o_columns (q_data q2)
      \<and> o_sort (q_data q1) = o_sort (q_data q2)
      \<and> o_pagination (q_data q1) = o_pagination (q_data q2)
      \<and> (case (o_filter (q_data q1), o_filter (q_data q2)) of
            (Some f, Some g) \<Rightarrow> same_members f g
          | (None, None) \<Rightarrow> True
          | _ \<Rightarrow> False))"

section \<open>Pagination (schema/query.ts)\<close>

text \<open>
  Errors are values.  The code throws plain \<^verbatim>\<open>Error\<close> objects, told apart by their
  message; the transport may throw a \<^verbatim>\<open>XataError\<close> with a status; and reading a
  property of null or undefined throws a \<^verbatim>\<open>TypeError\<close>.
\<close>

datatype error = Error string | XataError string int | TypeError

text \<open>What \<^verbatim>\<open>repository.query\<close> answers: the records and \<^verbatim>\<open>meta.page\<close>.\<close>

record page =
  p_records :: "json list"
  p_cursor :: string
  p_more :: bool

text \<open>
  \<^verbatim>\<open>repository.query\<close> is the transport's side and not part of the query builder.  It is
  a parameter: a function of all the queries it has received so far, the current one
  last.  So any deterministic transport is covered, and the history tells how many
  requests were made.
\<close>

type_synonym repository = "query list \<Rightarrow> error + page"

definition response_more :: "error + page \<Rightarrow> bool option" where
  "response_more r = (case r of Inl e \<Rightarrow> None | Inr pg \<Rightarrow> Some (p_more pg))"

definition response_records :: "error + page \<Rightarrow> json list" where
  "response_records r = (case r of Inl e \<Rightarrow> [] | Inr pg \<Rightarrow> p_records pg)"

text \<open>\<^verbatim>\<open>getPaginated(options)\<close>: one request, the query built from the options.\<close>

definition getPaginated :: "repository \<Rightarrow> query \<Rightarrow> options \<Rightarrow> query list
    \<Rightarrow> (error + page) \<times> query list \<times> options" where
  "getPaginated repo q opts hist =
     (let c = derive q opts; hist' = hist @ [c_query c]
      in (repo hist', hist', c_data c))"

text \<open>
  The loop of \<^verbatim>\<open>getIterator\<close>, run to its end as \<^verbatim>\<open>getAll\<close> consumes it.  It stops when
  a page reports \<^verbatim>\<open>more = false\<close> or a request fails, and may run forever otherwise:
  \<open>None\<close> stands for not returning.  The options' own filter object is the one the
  constructor assigns to, so the options of the next round are those the last request
  left.
\<close>

definition page_options :: "options \<Rightarrow> int \<Rightarrow> int \<Rightarrow> options" where
  "page_options opts batchSize offset =
     opts\<lparr>o_pagination := JObj [(''size'', JNum batchSize), (''offset'', JNum offset)]\<rparr>"

text \<open>The query that the request for one batch carries.\<close>

definition page_request :: "query \<Rightarrow> options \<Rightarrow> int \<Rightarrow> int \<Rightarrow> query" where
  "page_request q opts batchSize offset = c_query (derive q (page_options opts batchSize offset))"

text \<open>The options as one request leaves them for the next.\<close>

definition next_options :: "query \<Rightarrow> options \<Rightarrow> int \<Rightarrow> int \<Rightarrow> options" where
  "next_options q opts b off = opts\<lparr>o_filter := o_filter (c_data (derive q (page_options opts b off)))\<rparr>"

partial_function (option) iterate :: "repository \<Rightarrow> query \<Rightarrow> options \<Rightarrow> int \<Rightarrow> int
    \<Rightarrow> query list \<Rightarrow> json list list \<Rightarrow> ((error + json list list) \<times> query list) option" where
  "iterate repo q opts batchSize offset hist batches =
     (case getPaginated repo q (page_options opts batchSize offset) hist of
        (Inl e, hist', opts') \<Rightarrow> Some (Inl e, hist')
      | (Inr pg, hist', opts') \<Rightarrow>
          (if p_more pg
           then iterate repo q (opts\<lparr>o_filter := o_filter opts'\<rparr>) batchSize (offset + batchSize)
                  hist' (batches @ [p_records pg])
           else Some (Inr (batches @ [p_records pg]), hist')))"

definition getIterator :: "repository \<Rightarrow> query \<Rightarrow> options \<Rightarrow> int option \<Rightarrow> query list
    \<Rightarrow> ((error + json list list) \<times> query list) option" where
  "getIterator repo q opts batchSize hist =
     iterate repo q opts (case batchSize of None \<Rightarrow> 1 | Some b \<Rightarrow> b) 0 hist []"

text \<open>
  \<^verbatim>\<open>getAll\<close>.  \<^verbatim>\<open>PAGINATION_MAX_SIZE\<close> is declared in \<^verbatim>\<open>schema/pagination\<close>, which is
  not among the sources; it is the parameter \<open>max_size\<close>.
\<close>

definition getAll :: "int \<Rightarrow> repository \<Rightarrow> query \<Rightarrow> options \<Rightarrow> int option \<Rightarrow> query list
    \<Rightarrow> ((error + json list) \<times> query list) option" where
  "getAll max_size repo q opts batchSize hist =
     (case getIterator repo q opts (Some (case batchSize of None \<Rightarrow> max_size | Some b \<Rightarrow> b)) hist of
        None \<Rightarrow> None
      | Some (Inl e, hist') \<Rightarrow> Some (Inl e, hist')
      | Some (Inr batches, hist') \<Rightarrow> Some (Inr (concat batches), hist'))"

text \<open>
  A transport for trying \<open>getAll\<close> out: the \<open>n\<close>-th request is answered with the one
  record \<open>n\<close>, and \<^verbatim>\<open>more\<close> is true for the first two requests only.
\<close>

definition three_pages :: repository where
  "three_pages h =
     Inr \<lparr>p_records = [JNum (int (length h))], p_cursor = ''c'', p_more = (length h < 3)\<rparr>"

definition getMany :: "repository \<Rightarrow> query \<Rightarrow> options \<Rightarrow> query list
    \<Rightarrow> (error + json list) \<times> query list" where
  "getMany repo q opts hist =
     (case getPaginated repo q opts hist of
        (Inl e, hist', _) \<Rightarrow> (Inl e, hist')
      | (Inr pg, hist', _) \<Rightarrow> (Inr (p_records pg), hist'))"

text \<open>
  The query is itself a page, the one before the first: \<^verbatim>\<open>meta\<close> is
  \<^verbatim>\<open>{page: {cursor: 'start', more: true}}\<close> and \<^verbatim>\<open>records\<close> is empty.
\<close>

definition pagination_of :: "json \<Rightarrow> json \<Rightarrow> options" where
  "pagination_of sz offset =
     no_options\<lparr>o_pagination := JObj [(''size'', sz), (''offset'', offset)]\<rparr>"

definition firstPage :: "repository \<Rightarrow> query \<Rightarrow> json \<Rightarrow> json \<Rightarrow> query list
    \<Rightarrow> (error + page) \<times> query list \<times> options" where
  "firstPage repo q sz offset hist = getPaginated repo q (pagination_of sz offset) hist"

definition nextPage :: "repository \<Rightarrow> query \<Rightarrow> json \<Rightarrow> json \<Rightarrow> query list
    \<Rightarrow> (error + page) \<times> query list \<times> options" where
  "nextPage repo q sz offset hist = firstPage repo q sz offset hist"

definition previousPage :: "repository \<Rightarrow> query \<Rightarrow> json \<Rightarrow> json \<Rightarrow> query list
    \<Rightarrow> (error + page) \<times> query list \<times> options" where
  "previousPage repo q sz offset hist = firstPage repo q sz offset hist"

definition lastPage :: "repository \<Rightarrow> query \<Rightarrow> json \<Rightarrow> json \<Rightarrow> query list
    \<Rightarrow> (error + page) \<times> query list \<times> options" where
  "lastPage repo q sz offset hist =
     getPaginated repo q
       (no_options\<lparr>o_pagination :=
          JObj [(''size'', sz), (''offset'', offset), (''before'', JStr ''end'')]\<rparr>) hist"

definition hasNextPage :: "query \<Rightarrow> bool" where
  "hasNextPage q = True"

section \<open>Branch resolution (client.ts)\<close>

text \<open>
  \<^verbatim>\<open>BranchStrategyValue\<close> is a string, undefined or null.  A strategy is such a value or
  a builder, a function that is called to get one.  A builder reads the environment and
  may change it or throw: it is a function on a world \<open>'w\<close> that the model passes along.
\<close>

datatype branch_value = Undefined | Null | Name string

fun branch_truthy :: "branch_value \<Rightarrow> bool" where
  "branch_truthy (Name s) = (s \<noteq> [])"
| "branch_truthy _ = False"

datatype 'w strategy =
    Literal branch_value
  | Builder "'w \<Rightarrow> (error + branch_value) \<times> 'w"

text \<open>\<^verbatim>\<open>BranchStrategyOption\<close>: one strategy or an array of them.\<close>

datatype 'w branch_option = Single "'w strategy" | Many "'w strategy list"

text \<open>\<^verbatim>\<open>Array.isArray(param) ? [...param] : [param]\<close>\<close>

fun strategies_of :: "'w branch_option \<Rightarrow> 'w strategy list" where
  "strategies_of (Single s) = [s]"
| "strategies_of (Many ss) = ss"

text \<open>\<^verbatim>\<open>isBranchStrategyBuilder(strategy) ? await strategy() : strategy\<close>\<close>

fun evaluateBranch :: "'w strategy \<Rightarrow> 'w \<Rightarrow> (error + branch_value) \<times> 'w" where
  "evaluateBranch (Literal v) w = (Inr v, w)"
| "evaluateBranch (Builder f) w = f w"

text \<open>
  The loop over the strategies: the first truthy value ends it; a builder that throws
  ends it with the error; \<open>Inr None\<close> is the loop running off the end of the list.
\<close>

fun resolve :: "'w strategy list \<Rightarrow> 'w \<Rightarrow> (error + string option) \<times> 'w" where
  "resolve [] w = (Inr None, w)"
| "resolve (s # ss) w =
     (case evaluateBranch s w of
        (Inl e, w') \<Rightarrow> (Inl e, w')
      | (Inr (Name b), w') \<Rightarrow> (if b \<noteq> [] then (Inr (Some b), w') else resolve ss w')
      | (Inr _, w') \<Rightarrow> resolve ss w')"

subsection \<open>The client of the second file of client.ts: BaseClient.getBranch\<close>

type_synonym links = "(string \<times> (string \<times> string) list) list"

record 'w client =
  databaseURL :: "string option"
  apiKey :: string
  branch_option :: "'w branch_option"
  links :: links
  branch :: branch_value

text \<open>\<^verbatim>\<open>!options.branch\<close> and the constructor's check.\<close>

fun option_truthy :: "'w branch_option \<Rightarrow> bool" where
  "option_truthy (Single (Literal v)) = branch_truthy v"
| "option_truthy _ = True"

definition BaseClient_new :: "string option \<Rightarrow> string \<Rightarrow> 'w branch_option \<Rightarrow> links
    \<Rightarrow> error + 'w client" where
  "BaseClient_new url k opt ls =
     (if url = None \<or> url = Some [] \<or> k = [] \<or> \<not> option_truthy opt
      then Inl (Error ''Options databaseURL, apiKey and branch are required'')
      else Inr \<lparr>databaseURL = url, apiKey = k, branch_option = opt, links = ls,
                branch = Undefined\<rparr>)"

text \<open>\<^verbatim>\<open>if (this.branch) return this.branch\<close>: the memoized name, when there is one.\<close>

fun cached :: "branch_value \<Rightarrow> string option" where
  "cached (Name b) = (if b \<noteq> [] then Some b else None)"
| "cached _ = None"

definition getBranch :: "'w client \<Rightarrow> 'w \<Rightarrow> (error + string) \<times> 'w client \<times> 'w" where
  "getBranch c w =
     (case cached (branch c) of
        Some b \<Rightarrow> (Inr b, c, w)
      | None \<Rightarrow>
          (case resolve (strategies_of (branch_option c)) w of
             (Inl e, w') \<Rightarrow> (Inl e, c, w')
           | (Inr (Some b), w') \<Rightarrow> (Inr b, c\<lparr>branch := Name b\<rparr>, w')
           | (Inr None, w') \<Rightarrow> (Inl (Error ''Unable to resolve branch value''), c, w')))"

subsection \<open>The client of the first file of client.ts: \#evaluateBranch\<close>

text \<open>
  The private \<^verbatim>\<open>#branch\<close> is the only state.  \<^verbatim>\<open>#evaluateBranch(param)\<close> answers
  undefined where \<open>getBranch\<close> throws; \<^verbatim>\<open>#getFetchProps\<close> throws on that answer.
\<close>

definition evaluate_branch :: "branch_value \<Rightarrow> 'w branch_option option \<Rightarrow> 'w
    \<Rightarrow> (error + branch_value) \<times> branch_value \<times> 'w" where
  "evaluate_branch memo param w =
     (if branch_truthy memo then (Inr memo, memo, w)
      else (case param of
              None \<Rightarrow> (Inr Undefined, memo, w)
            | Some opt \<Rightarrow>
                (if \<not> option_truthy opt then (Inr Undefined, memo, w)
                 else (case resolve (strategies_of opt) w of
                         (Inl e, w') \<Rightarrow> (Inl e, memo, w')
                       | (Inr (Some b), w') \<Rightarrow> (Inr (Name b), Name b, w')
                       | (Inr None, w') \<Rightarrow> (Inr Undefined, memo, w')))))"



section \<open>Record hydration (BaseClient.initObject)\<close>

text \<open>
  \<^verbatim>\<open>typeof v === 'object'\<close> for a truthy \<open>v\<close>: objects and arrays.
\<close>

fun is_object :: "json \<Rightarrow> bool" where
  "is_object (JObj _) = True"
| "is_object (JArr _) = True"
| "is_object _ = False"

text \<open>
  The own enumerable properties, which \<^verbatim>\<open>Object.assign\<close> copies and \<^verbatim>\<open>Object.keys\<close>
  lists.  \<open>initObject\<close> makes the three methods it installs non-enumerable; every other
  property is enumerable.  An array has its indices as keys.  A member named
  \<^verbatim>\<open>__proto__\<close> is copied like any other here, whereas \<^verbatim>\<open>Object.assign\<close> would make it
  the prototype of the copy: rows are taken to have no such member (see \<open>plain\<close>).
\<close>

fun enumerable :: "json \<Rightarrow> bool" where
  "enumerable (JFun (ReadRecord _ _)) = False"
| "enumerable (JFun (UpdateRecord _ _)) = False"
| "enumerable (JFun (DeleteRecord _ _)) = False"
| "enumerable _ = True"

fun indexed :: "nat \<Rightarrow> json list \<Rightarrow> obj" where
  "indexed i [] = []"
| "indexed i (x # xs) = (show_nat i, x) # indexed (Suc i) xs"

fun own_entries :: "json \<Rightarrow> obj" where
  "own_entries (JObj kvs) = filter (\<lambda>(k, v). enumerable v) kvs"
| "own_entries (JArr xs) = indexed 0 xs"
| "own_entries (JStr s) = indexed 0 (map (\<lambda>c. JStr [c]) s)"
| "own_entries _ = []"

definition own_keys :: "json \<Rightarrow> string list" where
  "own_keys v = keys (own_entries v)"

text \<open>
  \<^verbatim>\<open>this.links[table] || []\<close>.  The links are a plain object, so a table name that is
  not one of its own keys but names a property of \<^verbatim>\<open>Object.prototype\<close> reads that
  property, a function or an object that the loop cannot iterate: a \<^verbatim>\<open>TypeError\<close>.
\<close>

definition object_prototype_names :: "string list" where
  "object_prototype_names =
     [''constructor'', ''__defineGetter__'', ''__defineSetter__'', ''hasOwnProperty'',
      ''__lookupGetter__'', ''__lookupSetter__'', ''isPrototypeOf'', ''propertyIsEnumerable'',
      ''toString'', ''valueOf'', ''__proto__'', ''toLocaleString'']"

fun own_links :: "links \<Rightarrow> string \<Rightarrow> (string \<times> string) list option" where
  "own_links [] table = None"
| "own_links ((t, ls) # rest) table = (if t = table then Some ls else own_links rest table)"

definition table_links :: "links \<Rightarrow> string \<Rightarrow> error + (string \<times> string) list" where
  "table_links ls table =
     (case own_links ls table of
        Some tableLinks \<Rightarrow> Inr tableLinks
      | None \<Rightarrow> (if table \<in> set object_prototype_names then Inl TypeError else Inr []))"

text \<open>
  One round of the loop over the table's links.  \<open>rec\<close> is the recursive call
  \<^verbatim>\<open>this.initObject(linkTable, value)\<close>, which may throw.
\<close>

definition link_step :: "(string \<Rightarrow> json \<Rightarrow> (error + json) option) \<Rightarrow> obj \<Rightarrow> string \<Rightarrow> string
    \<Rightarrow> (error + obj) option" where
  "link_step rec o1 field linkTable =
     (let v = lookup o1 field in
      if truthy v \<and> is_object v then
        (let id = get_prop v ''id'' in
         if ''id'' \<in> set (own_keys v) then
           (case rec linkTable v of
              None \<Rightarrow> None
            | Some (Inl e) \<Rightarrow> Some (Inl e)
            | Some (Inr r) \<Rightarrow> Some (Inr (assign o1 field r)))
         else if truthy id then
           Some (Inr (assign o1 field
             (JObj [(''id'', id), (''get'', JFun (LinkGet linkTable id))])))
         else Some (Inr o1))
      else Some (Inr o1))"

fun hydrate_links :: "(string \<Rightarrow> json \<Rightarrow> (error + json) option) \<Rightarrow> (string \<times> string) list \<Rightarrow> obj
    \<Rightarrow> (error + obj) option" where
  "hydrate_links rec [] o1 = Some (Inr o1)"
| "hydrate_links rec ((field, linkTable) # rest) o1 =
     (case link_step rec o1 field linkTable of
        None \<Rightarrow> None
      | Some (Inl e) \<Rightarrow> Some (Inl e)
      | Some (Inr o2) \<Rightarrow> hydrate_links rec rest o2)"

text \<open>
  The methods \<^verbatim>\<open>read\<close>, \<^verbatim>\<open>update\<close>, \<^verbatim>\<open>delete\<close>, closed over the table and the record's
  \<^verbatim>\<open>id\<close>.  The object is frozen afterwards, so the \<^verbatim>\<open>id\<close> they read when called is the one
  it has now.
\<close>

definition bind_methods :: "string \<Rightarrow> obj \<Rightarrow> obj" where
  "bind_methods table o1 =
     assign (assign (assign o1
       ''read'' (JFun (ReadRecord table (lookup o1 ''id''))))
       ''update'' (JFun (UpdateRecord table (lookup o1 ''id''))))
       ''delete'' (JFun (DeleteRecord table (lookup o1 ''id'')))"

text \<open>
  \<open>initObject\<close> calls itself on a link's value, which is a field of the object as the
  rounds before left it.  The recursion is by a bound on the nesting; \<open>None\<close> is the
  bound being too small.  \<open>Some (Inl e)\<close> is the call throwing \<open>e\<close>.
\<close>

fun init_bounded :: "nat \<Rightarrow> links \<Rightarrow> string \<Rightarrow> json \<Rightarrow> (error + json) option" where
  "init_bounded 0 ls table object = None"
| "init_bounded (Suc n) ls table object =
     (case table_links ls table of
        Inl e \<Rightarrow> Some (Inl e)
      | Inr tableLinks \<Rightarrow>
          (case hydrate_links (\<lambda>t v. init_bounded n ls t v) tableLinks (own_entries object) of
             None \<Rightarrow> None
           | Some (Inl e) \<Rightarrow> Some (Inl e)
           | Some (Inr o1) \<Rightarrow> Some (Inr (JObj (bind_methods table o1)))))"

fun depth :: "json \<Rightarrow> nat"
  and depth_list :: "json list \<Rightarrow> nat"
  and depth_members :: "(string \<times> json) list \<Rightarrow> nat" where
  "depth (JObj kvs) = Suc (depth_members kvs)"
| "depth (JArr xs) = Suc (depth_list xs)"
| "depth JUndef = 0"
| "depth JNull = 0"
| "depth (JBool _) = 0"
| "depth (JNum _) = 0"
| "depth (JStr _) = 0"
| "depth (JFun _) = 0"
| "depth_list [] = 0"
| "depth_list (x # xs) = max (depth x) (depth_list xs)"
| "depth_members [] = 0"
| "depth_members ((k, v) # kvs) = max (depth v) (depth_members kvs)"

text \<open>
  The nesting of the object is bound enough (\<open>init_bounded_enough\<close>), and \<open>initObject\<close>
  has the recursion of the source (\<open>initObject_unfold\<close>).
\<close>

definition initObject :: "links \<Rightarrow> string \<Rightarrow> json \<Rightarrow> (error + json) option" where
  "initObject ls table object = init_bounded (Suc (depth object)) ls table object"


fun is_method :: "string \<Rightarrow> json \<Rightarrow> bool" where
  "is_method k (JFun (ReadRecord _ _)) = (k = ''read'')"
| "is_method k (JFun (UpdateRecord _ _)) = (k = ''update'')"
| "is_method k (JFun (DeleteRecord _ _)) = (k = ''delete'')"
| "is_method k _ = False"


text \<open>\<^verbatim>\<open>typeof v === 'function'\<close>\<close>

fun callable :: "json \<Rightarrow> bool" where
  "callable (JFun _) = True"
| "callable _ = False"

text \<open>The row and the link map of the spec's hydration scenario.\<close>

definition scenario_row :: json where
  "scenario_row =
     JObj [(''id'', JStr ''1''), (''xata'', JObj [(''version'', JNum 0)]),
           (''author'', JObj [(''id'', JStr ''a1'')])]"

definition scenario_links :: links where
  "scenario_links = [(''users'', [(''author'', ''authors'')])]"







section \<open>Repository and pages of the second file of client.ts\<close>

text \<open>
  A request to the generated API functions of \<^verbatim>\<open>./api\<close>, which are not among the
  sources: the path parameters workspace, branch and table, and the body or the record
  id.  The API is a parameter, a function of all the requests sent so far, the current
  one last.
\<close>

datatype request =
    QueryTable string string string json
  | InsertRecord string string string json
  | GetRecord string string string json

type_synonym api = "request list \<Rightarrow> error + json"

text \<open>
  What the methods of client and repository act on: the client with its memoized
  branch, the world the branch builders read, and the requests sent.
\<close>

record 'w session =
  s_client :: "'w client"
  s_world :: 'w
  s_sent :: "request list"

definition bind_se :: "('s \<Rightarrow> (error + 'a) \<times> 's) \<Rightarrow> ('a \<Rightarrow> 's \<Rightarrow> (error + 'b) \<times> 's)
    \<Rightarrow> 's \<Rightarrow> (error + 'b) \<times> 's" where
  "bind_se m f s = (case m s of (Inl e, s') \<Rightarrow> (Inl e, s') | (Inr x, s') \<Rightarrow> f x s')"

definition call :: "api \<Rightarrow> request \<Rightarrow> 'w session \<Rightarrow> (error + json) \<times> 'w session" where
  "call a req s = (a (s_sent s @ [req]), s\<lparr>s_sent := s_sent s @ [req]\<rparr>)"

text \<open>
  \<^verbatim>\<open>getWorkspaceId\<close> and \<^verbatim>\<open>getDatabaseId\<close> match the database URL against a regular
  expression.  The match is the work of the language's \<^verbatim>\<open>RegExp\<close>; its result, the two
  groups, is the parameter \<open>rx\<close>.
\<close>

type_synonym url_regex = "string \<Rightarrow> (string \<times> string) option"

definition getWorkspaceId :: "url_regex \<Rightarrow> 'w session \<Rightarrow> (error + string) \<times> 'w session" where
  "getWorkspaceId rx s =
     (case rx (case databaseURL (s_client s) of None \<Rightarrow> [] | Some u \<Rightarrow> u) of
        None \<Rightarrow> (Inl (Error ''XATA_DATABASE_URL does not have a valid workspace''), s)
      | Some (workspace, database) \<Rightarrow>
          (if workspace = []
           then (Inl (Error ''XATA_DATABASE_URL does not have a valid workspace''), s)
           else (Inr workspace, s)))"

definition getDatabaseId :: "url_regex \<Rightarrow> 'w session \<Rightarrow> (error + string) \<times> 'w session" where
  "getDatabaseId rx s =
     (case rx (case databaseURL (s_client s) of None \<Rightarrow> [] | Some u \<Rightarrow> u) of
        None \<Rightarrow> (Inl (Error ''XATA_DATABASE_URL does not have a valid workspace''), s)
      | Some (workspace, database) \<Rightarrow>
          (if database = []
           then (Inl (Error ''XATA_DATABASE_URL does not have a valid workspace''), s)
           else (Inr database, s)))"

definition client_getBranch :: "'w session \<Rightarrow> (error + string) \<times> 'w session" where
  "client_getBranch s =
     (case getBranch (s_client s) (s_world s) of
        (r, c, w) \<Rightarrow> (r, s\<lparr>s_client := c, s_world := w\<rparr>))"

text \<open>
  \<open>initObject\<close> with the bound taken away: the record, or the error thrown.
  \<open>initObject_returns\<close> shows that the case \<open>None\<close> does not arise.
\<close>

definition hydrate :: "links \<Rightarrow> string \<Rightarrow> json \<Rightarrow> error + json" where
  "hydrate ls table object =
     (case initObject ls table object of Some r \<Rightarrow> r | None \<Rightarrow> Inr JUndef)"

fun is_string :: "json \<Rightarrow> bool" where
  "is_string (JStr _) = True"
| "is_string _ = False"

definition transformObjectLinks :: "json \<Rightarrow> json" where
  "transformObjectLinks object =
     JObj (map (\<lambda>(k, v).
             if truthy v \<and> is_object v \<and> is_string (get_prop v ''id'')
             then (k, get_prop v ''id'') else (k, v))
           (own_entries object))"

text \<open>Reading a property of null or undefined throws.\<close>

definition prop_of :: "json \<Rightarrow> string \<Rightarrow> 's \<Rightarrow> (error + json) \<times> 's" where
  "prop_of v k s = (if nullish v then (Inl TypeError, s) else (Inr (get_prop v k), s))"

definition read :: "url_regex \<Rightarrow> api \<Rightarrow> string \<Rightarrow> json \<Rightarrow> 'w session \<Rightarrow> (error + json) \<times> 'w session" where
  "read rx a table recordId =
     bind_se (getWorkspaceId rx) (\<lambda>workspace.
     bind_se client_getBranch (\<lambda>branch.
     bind_se (call a (GetRecord workspace branch table recordId)) (\<lambda>response s.
       (hydrate (links (s_client s)) table response, s))))"

definition create :: "url_regex \<Rightarrow> api \<Rightarrow> string \<Rightarrow> json \<Rightarrow> 'w session \<Rightarrow> (error + json) \<times> 'w session" where
  "create rx a table object =
     bind_se (getWorkspaceId rx) (\<lambda>workspace.
     bind_se client_getBranch (\<lambda>branch.
     bind_se (call a (InsertRecord workspace branch table (transformObjectLinks object))) (\<lambda>response.
     bind_se (prop_of response ''id'') (\<lambda>id.
     bind_se (read rx a table id) (\<lambda>finalObject s.
       if \<not> truthy finalObject
       then (Inl (Error ''The server failed to save the record''), s)
       else (Inr finalObject, s))))))"

subsection \<open>Query and Page of the second file\<close>

record lquery =
  lq_table :: string
  lq_any :: json
  lq_all :: json
  lq_not :: json
  lq_none :: json
  lq_sort :: json

record lpage =
  lp_query :: lquery
  lp_meta :: json
  lp_records :: "json list"

definition compactObject :: "obj \<Rightarrow> obj" where
  "compactObject kvs = filter (\<lambda>(k, v). v \<noteq> JUndef) kvs"

definition query_body :: "lquery \<Rightarrow> json \<Rightarrow> json" where
  "query_body q page =
     JObj [(''filter'', JObj (compactObject
              [(''$any'', lq_any q), (''$all'', lq_all q), (''$not'', lq_not q),
               (''$none'', lq_none q)])),
           (''sort'', lq_sort q),
           (''page'', page)]"

text \<open>
  \<^verbatim>\<open>objects.map(...)\<close> throws unless \<^verbatim>\<open>objects\<close> is an array, and stops at the first record
  whose hydration throws.
\<close>

fun hydrate_all :: "links \<Rightarrow> string \<Rightarrow> json list \<Rightarrow> error + json list" where
  "hydrate_all ls table [] = Inr []"
| "hydrate_all ls table (x # xs) =
     (case hydrate ls table x of
        Inl e \<Rightarrow> Inl e
      | Inr r \<Rightarrow> (case hydrate_all ls table xs of Inl e \<Rightarrow> Inl e | Inr rs \<Rightarrow> Inr (r # rs)))"

definition map_records :: "links \<Rightarrow> string \<Rightarrow> json \<Rightarrow> 's \<Rightarrow> (error + json list) \<times> 's" where
  "map_records ls table objects s =
     (case objects of
        JArr xs \<Rightarrow> (hydrate_all ls table xs, s)
      | _ \<Rightarrow> (Inl TypeError, s))"

definition Query_getPaginated :: "url_regex \<Rightarrow> api \<Rightarrow> lquery \<Rightarrow> json \<Rightarrow> 'w session
    \<Rightarrow> (error + lpage) \<times> 'w session" where
  "Query_getPaginated rx a q page =
     bind_se (getWorkspaceId rx) (\<lambda>workspace.
     bind_se (getDatabaseId rx) (\<lambda>database.
     bind_se client_getBranch (\<lambda>branch.
     bind_se (call a (QueryTable workspace branch (lq_table q) (query_body q page))) (\<lambda>response.
     bind_se (prop_of response ''meta'') (\<lambda>meta.
     bind_se (prop_of response ''records'') (\<lambda>objects s.
     bind_se (map_records (links (s_client s)) (lq_table q) objects) (\<lambda>records s.
       (Inr \<lparr>lp_query = q, lp_meta = meta, lp_records = records\<rparr>, s)) s))))))"

text \<open>\<^verbatim>\<open>this.meta.page.cursor\<close> and \<^verbatim>\<open>this.meta.page.more\<close>\<close>

definition meta_page_prop :: "json \<Rightarrow> string \<Rightarrow> 's \<Rightarrow> (error + json) \<times> 's" where
  "meta_page_prop meta k = bind_se (prop_of meta ''page'') (\<lambda>page. prop_of page k)"

definition page_object :: "json \<Rightarrow> json \<Rightarrow> string \<Rightarrow> json \<Rightarrow> json" where
  "page_object sz offset k cursor = JObj [(''size'', sz), (''offset'', offset), (k, cursor)]"

definition Page_nextPage :: "url_regex \<Rightarrow> api \<Rightarrow> lpage \<Rightarrow> json \<Rightarrow> json \<Rightarrow> 'w session
    \<Rightarrow> (error + lpage) \<times> 'w session" where
  "Page_nextPage rx a p sz offset =
     bind_se (meta_page_prop (lp_meta p) ''cursor'') (\<lambda>cursor.
       Query_getPaginated rx a (lp_query p) (page_object sz offset ''after'' cursor))"

definition Page_previousPage :: "url_regex \<Rightarrow> api \<Rightarrow> lpage \<Rightarrow> json \<Rightarrow> json \<Rightarrow> 'w session
    \<Rightarrow> (error + lpage) \<times> 'w session" where
  "Page_previousPage rx a p sz offset =
     bind_se (meta_page_prop (lp_meta p) ''cursor'') (\<lambda>cursor.
       Query_getPaginated rx a (lp_query p) (page_object sz offset ''before'' cursor))"

definition Page_firstPage :: "url_regex \<Rightarrow> api \<Rightarrow> lpage \<Rightarrow> json \<Rightarrow> json \<Rightarrow> 'w session
    \<Rightarrow> (error + lpage) \<times> 'w session" where
  "Page_firstPage rx a p sz offset =
     bind_se (meta_page_prop (lp_meta p) ''cursor'') (\<lambda>cursor.
       Query_getPaginated rx a (lp_query p) (page_object sz offset ''first'' cursor))"

definition Page_lastPage :: "url_regex \<Rightarrow> api \<Rightarrow> lpage \<Rightarrow> json \<Rightarrow> json \<Rightarrow> 'w session
    \<Rightarrow> (error + lpage) \<times> 'w session" where
  "Page_lastPage rx a p sz offset =
     bind_se (meta_page_prop (lp_meta p) ''cursor'') (\<lambda>cursor.
       Query_getPaginated rx a (lp_query p) (page_object sz offset ''last'' cursor))"

definition Page_hasNextPage :: "lpage \<Rightarrow> 's \<Rightarrow> (error + json) \<times> 's" where
  "Page_hasNextPage p = meta_page_prop (lp_meta p) ''more''"

text \<open>The query of the second file is a page too; its navigation starts over.\<close>

definition Query_firstPage :: "url_regex \<Rightarrow> api \<Rightarrow> lquery \<Rightarrow> json \<Rightarrow> json \<Rightarrow> 'w session
    \<Rightarrow> (error + lpage) \<times> 'w session" where
  "Query_firstPage rx a q sz offset =
     Query_getPaginated rx a q (JObj [(''size'', sz), (''offset'', offset)])"

definition Query_nextPage :: "url_regex \<Rightarrow> api \<Rightarrow> lquery \<Rightarrow> json \<Rightarrow> json \<Rightarrow> 'w session
    \<Rightarrow> (error + lpage) \<times> 'w session" where
  "Query_nextPage rx a q sz offset = Query_firstPage rx a q sz offset"

definition Query_previousPage :: "url_regex \<Rightarrow> api \<Rightarrow> lquery \<Rightarrow> json \<Rightarrow> json \<Rightarrow> 'w session
    \<Rightarrow> (error + lpage) \<times> 'w session" where
  "Query_previousPage rx a q sz offset = Query_firstPage rx a q sz offset"

section \<open>Example clients\<close>

text \<open>
  The strategy list of the spec's example, \<^verbatim>\<open>[undefined, "", resolverReturning("main")]\<close>,
  and a list whose every element is empty.  The world is the number of builder calls made.
\<close>

definition main_strategies :: "nat strategy list" where
  "main_strategies =
     [Literal Undefined, Literal (Name []), Builder (\<lambda>w. (Inr (Name ''main''), Suc w))]"

definition empty_strategies :: "nat strategy list" where
  "empty_strategies =
     [Literal Undefined, Literal (Name []), Builder (\<lambda>w. (Inr Null, Suc w))]"

definition example_client :: "nat strategy list \<Rightarrow> nat client" where
  "example_client ss =
     \<lparr>databaseURL = Some ''https://ws.xata.sh/db/shop'', apiKey = ''key'',
      branch_option = Many ss, links = scenario_links, branch = Undefined\<rparr>"

definition example_session :: "nat strategy list \<Rightarrow> nat session" where
  "example_session ss = \<lparr>s_client = example_client ss, s_world = 0, s_sent = []\<rparr>"

definition example_regex :: url_regex where
  "example_regex url = (if url = ''https://ws.xata.sh/db/shop'' then Some (''ws'', ''shop'') else None)"

text \<open>
  An API for trying \<open>create\<close> out: the insert succeeds with the id \<^verbatim>\<open>rec_1\<close>, and the read
  that follows finds nothing, its answer is \<^verbatim>\<open>null\<close>.
\<close>

definition lost_record_api :: api where
  "lost_record_api h =
     (case rev h of
        InsertRecord _ _ _ _ # _ \<Rightarrow> Inr (JObj [(''id'', JStr ''rec_1'')])
      | GetRecord _ _ _ _ # _ \<Rightarrow> Inr JNull
      | _ \<Rightarrow> Inl (XataError ''Not found'' 404))"

text \<open>
  For trying the page navigation out: a query on \<^verbatim>\<open>users\<close> without filters, its last page
  (\<^verbatim>\<open>more = false\<close>, cursor \<^verbatim>\<open>c1\<close>), and an API that answers every query with one record.
\<close>

definition users_query :: lquery where
  "users_query = \<lparr>lq_table = ''users'', lq_any = JUndef, lq_all = JUndef, lq_not = JUndef,
     lq_none = JUndef, lq_sort = JUndef\<rparr>"

definition last_page :: lpage where
  "last_page = \<lparr>lp_query = users_query,
     lp_meta = JObj [(''page'', JObj [(''cursor'', JStr ''c1''), (''more'', JBool False)])],
     lp_records = []\<rparr>"

definition one_record_api :: api where
  "one_record_api h =
     Inr (JObj [(''meta'', JObj [(''page'', JObj [(''cursor'', JStr ''c2''), (''more'', JBool True)])]),
                (''records'', JArr [JObj [(''id'', JStr ''r1'')]])])"

definition one_record_repository :: repository where
  "one_record_repository h =
     Inr \<lparr>p_records = [JObj [(''id'', JStr ''r1'')]], p_cursor = ''c2'', p_more = True\<rparr>"

section \<open>Properties of the query builder\<close>

lemma lookup_assign: "lookup (assign f k v) k' = (if k' = k then v else lookup f k')"
  by (induction f) auto

lemma keys_assign: "set (keys (assign f k v)) = insert k (set (keys f))"
  by (induction f) (force simp: keys_def)+

lemma assign_same: "k \<in> set (keys f) \<Longrightarrow> lookup f k = v \<Longrightarrow> assign f k v = f"
  by (induction f) (force simp: keys_def)+

lemma Query_new_inv: "Query_inv (c_query (Query_new t d p))"
  by (simp add: Query_inv_def Query_new_def Let_def keys_assign coalesce_def split: prod.splits)

lemmas ctor_defs = derive_def Query_new_def Let_def filter_alias_def no_options_def
  combinator_def filter_prop_def parent_filter_prop_def parent_field_def coalesce_def

lemma filter_q_data:
  "q_data (c_query (filter_q q a b)) =
     \<lparr>o_filter = Some
        [(''$all'', JArr (compact (flat [filter_prop (q_data q) ''$all''] @ [JObj [(a, b)]]))),
         (''$any'', filter_prop (q_data q) ''$any''),
         (''$not'', filter_prop (q_data q) ''$not''),
         (''$none'', filter_prop (q_data q) ''$none'')],
      o_sort = o_sort (q_data q),
      o_columns = coalesce (o_columns (q_data q)) (JArr [JStr ''*'']),
      o_pagination = o_pagination (q_data q),
      o_cache = o_cache (q_data q)\<rparr>"
  by (simp add: filter_q_def ctor_defs)

lemma filter_q_parent: "c_parent (filter_q q a b) = Some (q_data q)"
  by (simp add: filter_q_def ctor_defs)

lemma filter_obj_single: "filter_obj q [(a, b)] = filter_q q a b"
  by (simp add: filter_obj_def filter_q_def)

lemma compact_Nil: "compact [] = []"
  by (simp add: compact_def)

lemma compact_Cons: "compact (x # xs) = (if nullish x then compact xs else x # compact xs)"
  by (simp add: compact_def)

lemma compact_append: "compact (xs @ ys) = compact xs @ compact ys"
  by (simp add: compact_def)

lemma compact_id: "list_all (\<lambda>x. \<not> nullish x) xs \<Longrightarrow> compact xs = xs"
  by (induction xs) (auto simp: compact_Nil compact_Cons)

lemma base_query_filter:
  "o_filter (q_data (base_query t)) =
     Some [(''$any'', JUndef), (''$all'', JUndef), (''$not'', JUndef), (''$none'', JUndef)]"
  by (simp add: base_query_def ctor_defs)

text \<open>
  The builder keeps \<^verbatim>\<open>$all\<close> absent or a list without null or undefined entries: the
  query a repository starts from has none, \<^verbatim>\<open>filter\<close> and \<^verbatim>\<open>all\<close> make such a list, and
  every other method passes on what the query has.
\<close>

lemma filter_of_not_nullish: "\<not> nullish (filter_of q)"
  by (simp add: filter_of_def split: option.splits)

lemma compact_not_nullish: "list_all (\<lambda>x. \<not> nullish x) (compact xs)"
  by (induction xs) (auto simp: compact_Nil compact_Cons)

lemma all_list_base: "all_list (base_query t) = Some []"
  by (simp add: all_list_def base_query_def ctor_defs)

lemma all_list_filter_q: "\<exists>xs. all_list (c_query (filter_q q a b)) = Some xs"
  by (simp add: all_list_def filter_q_data filter_prop_def compact_not_nullish)

lemma all_list_filter_obj: "\<exists>xs. all_list (c_query (filter_obj q a)) = Some xs"
  by (simp add: all_list_def filter_obj_def ctor_defs compact_not_nullish)

lemma all_list_all_q: "\<exists>xs. all_list (c_query (all_q q qs)) = Some xs"
  by (simp add: all_list_def all_q_def ctor_defs list_all_iff filter_of_not_nullish)

lemma all_list_any_q: "all_list (c_query (any_q q qs)) = all_list q"
  by (simp add: all_list_def any_q_def ctor_defs)

lemma all_list_not_q: "all_list (c_query (not_q q qs)) = all_list q"
  by (simp add: all_list_def not_q_def ctor_defs)

lemma all_list_none_q: "all_list (c_query (none_q q qs)) = all_list q"
  by (simp add: all_list_def none_q_def ctor_defs)

lemma all_list_sort_q: "Query_inv q \<Longrightarrow> all_list (c_query (sort_q q column direction)) = all_list q"
  by (auto simp add: all_list_def sort_q_def ctor_defs Query_inv_def lookup_assign
      split: option.splits)

lemma all_list_select_q: "Query_inv q \<Longrightarrow> all_list (c_query (select_q q cols)) = all_list q"
  by (auto simp add: all_list_def select_q_def ctor_defs Query_inv_def lookup_assign
      split: option.splits)

lemma all_list_cache_q: "Query_inv q \<Longrightarrow> all_list (c_query (cache_q q ttl)) = all_list q"
  by (auto simp add: all_list_def cache_q_def ctor_defs Query_inv_def lookup_assign
      split: option.splits)

text \<open>
  Claim C6.  For every query \<open>q\<close> (every query is made by the constructor, so
  \<open>Query_inv\<close> holds) whose \<^verbatim>\<open>$all\<close> is a list \<open>xs\<close> without null or undefined entries, or
  is absent (\<open>xs\<close> is empty then), and for every constraint \<^verbatim>\<open>{[a]: b}\<close>:
  \<^verbatim>\<open>q.filter(a, b)\<close> is a new query whose \<^verbatim>\<open>$all\<close> is \<open>xs\<close> with the constraint appended;
  its \<^verbatim>\<open>$any\<close>, \<^verbatim>\<open>$not\<close>, \<^verbatim>\<open>$none\<close>, sort, columns, pagination, cache and table are those
  of \<open>q\<close>; the options of \<open>q\<close> are what they were; and the one-argument form
  \<^verbatim>\<open>q.filter({[a]: b})\<close> does the same.
\<close>

theorem filter_appends:
  assumes "Query_inv q" and "all_list q = Some xs"
  shows "filter_prop (q_data (c_query (filter_q q a b))) ''$all'' = JArr (xs @ [JObj [(a, b)]])
       \<and> filter_prop (q_data (c_query (filter_q q a b))) ''$any'' = filter_prop (q_data q) ''$any''
       \<and> filter_prop (q_data (c_query (filter_q q a b))) ''$not'' = filter_prop (q_data q) ''$not''
       \<and> filter_prop (q_data (c_query (filter_q q a b))) ''$none'' = filter_prop (q_data q) ''$none''
       \<and> o_sort (q_data (c_query (filter_q q a b))) = o_sort (q_data q)
       \<and> o_columns (q_data (c_query (filter_q q a b))) = o_columns (q_data q)
       \<and> o_pagination (q_data (c_query (filter_q q a b))) = o_pagination (q_data q)
       \<and> o_cache (q_data (c_query (filter_q q a b))) = o_cache (q_data q)
       \<and> q_table (c_query (filter_q q a b)) = q_table q
       \<and> c_parent (filter_q q a b) = Some (q_data q)
       \<and> filter_obj q [(a, b)] = filter_q q a b"
proof -
  have cols: "coalesce (o_columns (q_data q)) (JArr [JStr ''*'']) = o_columns (q_data q)"
    using assms(1) by (simp add: Query_inv_def coalesce_def)
  have tbl: "q_table (c_query (filter_q q a b)) = q_table q"
    by (simp add: filter_q_def ctor_defs)
  have "compact (flat [filter_prop (q_data q) ''$all''] @ [JObj [(a, b)]]) = xs @ [JObj [(a, b)]]"
  proof (cases "filter_prop (q_data q) ''$all''")
    case JUndef
    with assms(2) show ?thesis
      by (simp add: all_list_def compact_Cons compact_Nil)
  next
    case (JArr ys)
    with assms(2) have "list_all (\<lambda>x. \<not> nullish x) ys" "xs = ys"
      by (auto simp: all_list_def split: if_splits)
    with JArr show ?thesis
      by (simp add: compact_append compact_id compact_Cons compact_Nil)
  qed (use assms(2) in \<open>simp_all add: all_list_def\<close>)
  then show ?thesis
    by (simp add: filter_q_data filter_q_parent filter_obj_single cols tbl filter_prop_def)
qed

theorem filter_appends_witness:
  "filter_prop (q_data (c_query (filter_q (c_query (filter_q (base_query ''t'') ''a'' (JNum 1)))
         ''b'' (JStr ''x'')))) ''$all''
     = JArr [JObj [(''a'', JNum 1)], JObj [(''b'', JStr ''x'')]]"
proof -
  let ?q = "c_query (filter_q (base_query ''t'') ''a'' (JNum 1))"
  have i: "Query_inv ?q"
    by (simp add: filter_q_def derive_def Query_new_inv)
  have l: "all_list ?q = Some [JObj [(''a'', JNum 1)]]"
    by (simp add: all_list_def filter_q_data filter_prop_def base_query_filter
        compact_Cons compact_Nil)
  from filter_appends [OF i l, of "''b''" "JStr ''x''"] show ?thesis by simp
qed

lemma combinator_q_data:
  "q_data (c_query (derive q (no_options\<lparr>o_filter := Some [(k, v)]\<rparr>))) =
     \<lparr>o_filter = Some
        (assign (assign (assign (assign [(k, v)]
           ''$any'' (coalesce (lookup [(k, v)] ''$any'') (filter_prop (q_data q) ''$any'')))
           ''$all'' (coalesce (lookup [(k, v)] ''$all'') (filter_prop (q_data q) ''$all'')))
           ''$not'' (coalesce (lookup [(k, v)] ''$not'') (filter_prop (q_data q) ''$not'')))
           ''$none'' (coalesce (lookup [(k, v)] ''$none'') (filter_prop (q_data q) ''$none''))),
      o_sort = o_sort (q_data q),
      o_columns = coalesce (o_columns (q_data q)) (JArr [JStr ''*'']),
      o_pagination = o_pagination (q_data q),
      o_cache = o_cache (q_data q)\<rparr>"
  by (simp add: derive_def Query_new_def Let_def filter_alias_def no_options_def
      combinator_def filter_prop_def parent_filter_prop_def parent_field_def coalesce_def)

lemma any_q_filter:
  "o_filter (q_data (c_query (any_q q qs))) =
     Some [(''$any'', JArr (map filter_of qs)),
           (''$all'', filter_prop (q_data q) ''$all''),
           (''$not'', filter_prop (q_data q) ''$not''),
           (''$none'', filter_prop (q_data q) ''$none'')]"
  by (simp add: any_q_def combinator_q_data coalesce_def)

text \<open>
  Claim C2, as the code has it.  \<^verbatim>\<open>q.any(a, b)\<close> returns a query whose \<^verbatim>\<open>$any\<close> is exactly
  the list of the filter objects of \<open>a\<close> and \<open>b\<close>, replacing any \<^verbatim>\<open>$any\<close> of \<open>q\<close>, while
  \<^verbatim>\<open>$all\<close>, \<^verbatim>\<open>$not\<close> and \<^verbatim>\<open>$none\<close> are those of \<open>q\<close>: the constructor inherits from the
  parent every combinator that the new data does not set.  In the same way \<^verbatim>\<open>all\<close>,
  \<^verbatim>\<open>not\<close> and \<^verbatim>\<open>none\<close> each replace their own key only, with the list of the
  subqueries' filter objects, and keep the other three of \<open>q\<close>.
\<close>

theorem combinators_replace_own_key:
  "o_filter (q_data (c_query (any_q q [a, b]))) =
     Some [(''$any'', JArr [filter_of a, filter_of b]),
           (''$all'', filter_prop (q_data q) ''$all''),
           (''$not'', filter_prop (q_data q) ''$not''),
           (''$none'', filter_prop (q_data q) ''$none'')]
   \<and> o_filter (q_data (c_query (all_q q qs))) =
     Some [(''$all'', JArr (map filter_of qs)),
           (''$any'', filter_prop (q_data q) ''$any''),
           (''$not'', filter_prop (q_data q) ''$not''),
           (''$none'', filter_prop (q_data q) ''$none'')]
   \<and> o_filter (q_data (c_query (not_q q qs))) =
     Some [(''$not'', JArr (map filter_of qs)),
           (''$any'', filter_prop (q_data q) ''$any''),
           (''$all'', filter_prop (q_data q) ''$all''),
           (''$none'', filter_prop (q_data q) ''$none'')]
   \<and> o_filter (q_data (c_query (none_q q qs))) =
     Some [(''$none'', JArr (map filter_of qs)),
           (''$any'', filter_prop (q_data q) ''$any''),
           (''$all'', filter_prop (q_data q) ''$all''),
           (''$not'', filter_prop (q_data q) ''$not'')]
   \<and> o_filter (q_data (c_query (any_q q qs))) =
     Some [(''$any'', JArr (map filter_of qs)),
           (''$all'', filter_prop (q_data q) ''$all''),
           (''$not'', filter_prop (q_data q) ''$not''),
           (''$none'', filter_prop (q_data q) ''$none'')]"
  by (simp add: any_q_def all_q_def not_q_def none_q_def combinator_q_data coalesce_def)

theorem combinators_replace_own_key_witness:
  "o_filter (q_data (c_query (any_q (c_query (filter_q (base_query ''t'') ''a'' (JNum 1)))
       [base_query ''t'', base_query ''t'']))) =
     Some [(''$any'', JArr [filter_of (base_query ''t''), filter_of (base_query ''t'')]),
           (''$all'', JArr [JObj [(''a'', JNum 1)]]),
           (''$not'', JUndef),
           (''$none'', JUndef)]"
  using combinators_replace_own_key
    [of "c_query (filter_q (base_query ''t'') ''a'' (JNum 1))" "base_query ''t''" "base_query ''t''"]
  by (simp add: filter_q_data filter_prop_def base_query_filter compact_Cons compact_Nil)

text \<open>
  Claim C2 as the spec words it fails: after \<^verbatim>\<open>base.filter("a", 1)\<close>, calling \<^verbatim>\<open>any\<close> with
  two subqueries that carry no filter at all gives a filter that is not
  \<^verbatim>\<open>{$any: [...]}\<close> alone; the prior \<^verbatim>\<open>$all: [{a: 1}]\<close> is still there.
\<close>

theorem any_keeps_prior_all:
  "filter_of (base_query ''t'') =
     JObj [(''$any'', JUndef), (''$all'', JUndef), (''$not'', JUndef), (''$none'', JUndef)]
   \<and> o_filter (q_data (c_query (any_q (c_query (filter_q (base_query ''t'') ''a'' (JNum 1)))
         [base_query ''t'', base_query ''t'']))) \<noteq>
       Some [(''$any'', JArr [filter_of (base_query ''t''), filter_of (base_query ''t'')])]
   \<and> filter_prop (q_data (c_query (any_q (c_query (filter_q (base_query ''t'') ''a'' (JNum 1)))
         [base_query ''t'', base_query ''t'']))) ''$all'' = JArr [JObj [(''a'', JNum 1)]]"
  by (simp add: any_q_filter filter_q_data filter_prop_def filter_of_def getQueryOptions_def
      base_query_filter compact_Cons compact_Nil)

section \<open>Properties of the cache key\<close>

text \<open>Base64 loses nothing: the text can be read back from the key.\<close>

lemma base64_alphabet_distinct: "distinct base64_alphabet"
  by (simp add: base64_alphabet_def)

lemma base64_alphabet_length: "length base64_alphabet = 64"
  by (simp add: base64_alphabet_def)

lemma sextet_inj: "n < 64 \<Longrightarrow> m < 64 \<Longrightarrow> sextet n = sextet m \<Longrightarrow> n = m"
  using base64_alphabet_distinct
  by (simp add: sextet_def nth_eq_iff_index_eq base64_alphabet_length)

lemma sextet_no_pad: "sextet n \<noteq> CHR ''=''"
proof -
  have "CHR ''='' \<notin> set base64_alphabet"
    by (simp add: base64_alphabet_def)
  moreover have "sextet n \<in> set base64_alphabet"
    by (simp add: sextet_def base64_alphabet_length)
  ultimately show ?thesis by metis
qed

lemma split_digits:
  fixes x y x' y' k :: nat
  assumes "x * k + y = x' * k + y'" "y < k" "y' < k"
  shows "x = x' \<and> y = y'"
proof -
  have "(x * k + y) div k = x" "(x' * k + y') div k = x'"
    using assms(2,3) by simp_all
  with assms(1) have "x = x'" by simp
  with assms(1) show ?thesis by simp
qed

lemma div_mod_eq:
  fixes a a' k :: nat
  assumes "a div k = a' div k" "a mod k = a' mod k"
  shows "a = a'"
  by (metis assms div_mult_mod_eq)

lemma triple_eq:
  fixes a b c a' b' c' :: nat
  assumes "a < 256" "b < 256" "c < 256" "a' < 256" "b' < 256" "c' < 256"
    and "sextet (a div 4) = sextet (a' div 4)"
    and "sextet ((a mod 4) * 16 + b div 16) = sextet ((a' mod 4) * 16 + b' div 16)"
    and "sextet ((b mod 16) * 4 + c div 64) = sextet ((b' mod 16) * 4 + c' div 64)"
    and "sextet (c mod 64) = sextet (c' mod 64)"
  shows "a = a' \<and> b = b' \<and> c = c'"
proof -
  have b16: "b div 16 < 16" "b' div 16 < 16" using assms(2,5) by simp_all
  have c64: "c div 64 < 4" "c' div 64 < 4" using assms(3,6) by simp_all
  have a4: "a mod 4 < 4" "a' mod 4 < 4" "a div 4 < 64" "a' div 4 < 64" using assms(1,4) by simp_all
  have bm: "b mod 16 < 16" "b' mod 16 < 16" by simp_all
  have 1: "a div 4 = a' div 4"
    by (rule sextet_inj [OF a4(3) a4(4) assms(7)])
  have "(a mod 4) * 16 + b div 16 < 64" "(a' mod 4) * 16 + b' div 16 < 64"
    using a4 b16 by linarith+
  then have "(a mod 4) * 16 + b div 16 = (a' mod 4) * 16 + b' div 16"
    by (rule sextet_inj [OF _ _ assms(8)])
  from split_digits [OF this b16] have 2: "a mod 4 = a' mod 4" "b div 16 = b' div 16" by simp_all
  have "(b mod 16) * 4 + c div 64 < 64" "(b' mod 16) * 4 + c' div 64 < 64"
    using bm c64 by linarith+
  then have "(b mod 16) * 4 + c div 64 = (b' mod 16) * 4 + c' div 64"
    by (rule sextet_inj [OF _ _ assms(9)])
  from split_digits [OF this c64] have 3: "b mod 16 = b' mod 16" "c div 64 = c' div 64" by simp_all
  have 4: "c mod 64 = c' mod 64"
    by (rule sextet_inj [OF _ _ assms(10)]) simp_all
  from div_mod_eq [OF 1 2(1)] div_mod_eq [OF 2(2) 3(1)] div_mod_eq [OF 3(2) 4]
  show ?thesis by simp
qed


lemma base64_bytes_inj:
  "list_all (\<lambda>x. x < 256) xs \<Longrightarrow> list_all (\<lambda>x. x < 256) ys \<Longrightarrow>
   base64_bytes xs = base64_bytes ys \<Longrightarrow> xs = ys"
proof (induction xs arbitrary: ys rule: base64_bytes.induct)
  case (1 a b c rest)
  show ?case
  proof (cases ys rule: base64_bytes.cases)
    case (1 a' b' c' rest')
    with "1.prems" have e: "sextet (a div 4) = sextet (a' div 4)"
      "sextet ((a mod 4) * 16 + b div 16) = sextet ((a' mod 4) * 16 + b' div 16)"
      "sextet ((b mod 16) * 4 + c div 64) = sextet ((b' mod 16) * 4 + c' div 64)"
      "sextet (c mod 64) = sextet (c' mod 64)"
      "base64_bytes rest = base64_bytes rest'"
      and bnd: "a < 256" "b < 256" "c < 256" "a' < 256" "b' < 256" "c' < 256"
      and r: "list_all (\<lambda>x. x < 256) rest" "list_all (\<lambda>x. x < 256) rest'"
      by simp_all
    from triple_eq [OF bnd e(1-4)] "1.IH" [OF r e(5)] 1 show ?thesis by simp
  next
    case (2 a' b')
    with "1.prems" show ?thesis by (simp add: sextet_no_pad)
  next
    case (3 a')
    with "1.prems" show ?thesis by (simp add: sextet_no_pad)
  next
    case 4
    with "1.prems" show ?thesis by simp
  qed
next
  case (2 a b)
  show ?case
  proof (cases ys rule: base64_bytes.cases)
    case (1 a' b' c' rest')
    with "2.prems" show ?thesis by (simp add: sextet_no_pad [symmetric])
  next
    case (2 a' b')
    with "2.prems" have e: "sextet (a div 4) = sextet (a' div 4)"
      "sextet ((a mod 4) * 16 + b div 16) = sextet ((a' mod 4) * 16 + b' div 16)"
      "sextet ((b mod 16) * 4 + 0 div 64) = sextet ((b' mod 16) * 4 + 0 div 64)"
      "sextet (0 mod 64) = sextet (0 mod 64)"
      and bnd: "a < 256" "b < 256" "(0::nat) < 256" "a' < 256" "b' < 256" "(0::nat) < 256"
      by simp_all
    from triple_eq [OF bnd e] 2 show ?thesis by simp
  next
    case (3 a')
    with "2.prems" show ?thesis by (simp add: sextet_no_pad)
  next
    case 4
    with "2.prems" show ?thesis by simp
  qed
next
  case (3 a)
  show ?case
  proof (cases ys rule: base64_bytes.cases)
    case (1 a' b' c' rest')
    with "3.prems" show ?thesis by (simp add: sextet_no_pad [symmetric])
  next
    case (2 a' b')
    with "3.prems" show ?thesis by (simp add: sextet_no_pad [symmetric])
  next
    case (3 a')
    with "3.prems" have e: "sextet (a div 4) = sextet (a' div 4)"
      "sextet ((a mod 4) * 16 + 0 div 16) = sextet ((a' mod 4) * 16 + 0 div 16)"
      "sextet ((0 mod 16) * 4 + 0 div 64) = sextet ((0 mod 16) * 4 + 0 div 64)"
      "sextet (0 mod 64) = sextet (0 mod 64)"
      and bnd: "a < 256" "(0::nat) < 256" "(0::nat) < 256" "a' < 256" "(0::nat) < 256" "(0::nat) < 256"
      by simp_all
    from triple_eq [OF bnd e] 3 show ?thesis by simp
  next
    case 4
    with "3.prems" show ?thesis by simp
  qed
next
  case 4
  then show ?case by (cases ys rule: base64_bytes.cases) simp_all
qed

lemma toBase64_inj: "toBase64 s = toBase64 t \<Longrightarrow> s = t"
proof -
  assume a: "toBase64 s = toBase64 t"
  have b: "\<And>u. list_all (\<lambda>x. x < 256) (map (of_char :: char \<Rightarrow> nat) u)"
    by (simp add: list_all_iff)
  from base64_bytes_inj [OF b b a [unfolded toBase64_def]]
  have "map (of_char :: char \<Rightarrow> nat) s = map of_char t" .
  then show "s = t"
    by (simp add: inj_map_eq_map inj_on_def)
qed

text \<open>The layout of the serialized text, and its dependence on the key order.\<close>

lemma commas_Cons: "\<exists>r. commas (x # ms) = x @ r"
  by (cases ms) auto

lemma quote_columns: "quote ''columns'' = [CHR 0x22] @ ''columns'' @ [CHR 0x22]"
  and quote_filter: "quote ''filter'' = [CHR 0x22] @ ''filter'' @ [CHR 0x22]"
  and quote_sort: "quote ''sort'' = [CHR 0x22] @ ''sort'' @ [CHR 0x22]"
  and quote_pagination: "quote ''pagination'' = [CHR 0x22] @ ''pagination'' @ [CHR 0x22]"
  and quote_any: "quote ''$any'' = [CHR 0x22] @ ''$any'' @ [CHR 0x22]"
  and quote_all: "quote ''$all'' = [CHR 0x22] @ ''$all'' @ [CHR 0x22]"
  by (simp_all add: quote_def escape_char_def)

lemma default_not_undef: "d \<noteq> JUndef \<Longrightarrow> default_to v d \<noteq> JUndef"
  by (simp add: default_to_def)

lemma omitted_default:
  "\<not> callable v \<Longrightarrow> \<not> callable d \<Longrightarrow> d \<noteq> JUndef \<Longrightarrow> \<not> omitted (default_to v d)"
  by (cases v; cases d) (auto simp: default_to_def)

lemma stringify_key_object:
  assumes "\<not> callable (o_columns (q_data q))" "\<not> callable (o_sort (q_data q))"
    "\<not> callable (o_pagination (q_data q))"
  shows "stringify (key_object q) = key_text q"
proof -
  have c: "\<not> omitted (default_to (o_columns (q_data q)) (JArr []))"
    using assms(1) by (simp add: omitted_default)
  have s: "\<not> omitted (default_to (o_sort (q_data q)) (JArr []))"
    using assms(2) by (simp add: omitted_default)
  have p: "\<not> omitted (default_to (o_pagination (q_data q)) (JObj []))"
    using assms(3) by (simp add: omitted_default)
  have f: "\<not> omitted (case o_filter (q_data q) of None \<Rightarrow> JObj [] | Some f \<Rightarrow> JObj f)"
    by (simp split: option.splits)
  show ?thesis
    by (simp add: key_object_def key_text_def c s p f quote_columns quote_filter quote_sort
        quote_pagination split: option.splits)
qed


lemma any_q_data:
  "q_data (c_query (any_q q qs)) =
     \<lparr>o_filter = Some [(''$any'', JArr (map filter_of qs)),
                       (''$all'', filter_prop (q_data q) ''$all''),
                       (''$not'', filter_prop (q_data q) ''$not''),
                       (''$none'', filter_prop (q_data q) ''$none'')],
      o_sort = o_sort (q_data q),
      o_columns = coalesce (o_columns (q_data q)) (JArr [JStr ''*'']),
      o_pagination = o_pagination (q_data q),
      o_cache = o_cache (q_data q)\<rparr>"
  by (simp add: any_q_def combinator_q_data coalesce_def)

lemma object_text_starts_with_first_key:
  assumes "stringify (JObj ((k, v) # kvs)) = Some f" "\<not> omitted v"
  shows "\<exists>r. f = ''{'' @ quote k @ '':'' @ r"
proof -
  from assms obtain s ms where "stringify v = Some s" "stringify_members kvs = Some ms"
    "f = ''{'' @ commas ((quote k @ '':'' @ s) # ms) @ ''}''"
    by (auto split: option.splits)
  moreover obtain r where "commas ((quote k @ '':'' @ s) # ms) = (quote k @ '':'' @ s) @ r"
    using commas_Cons by blast
  ultimately show ?thesis by simp
qed

lemma any_filter_same_resolved:
  "same_resolved (c_query (any_q (c_query (filter_q q a b)) qs))
                 (c_query (filter_q (c_query (any_q q qs)) a b))"
  by (auto simp add: same_resolved_def same_members_def any_q_data filter_q_data filter_prop_def
      keys_def coalesce_def)

lemma any_filter_keys_differ:
  assumes nc: "\<not> callable (o_columns (q_data q))" "\<not> callable (o_sort (q_data q))"
      "\<not> callable (o_pagination (q_data q))"
    and k1: "key (c_query (any_q (c_query (filter_q q a b)) qs)) = Some k1"
    and k2: "key (c_query (filter_q (c_query (any_q q qs)) a b)) = Some k2"
  shows "k1 \<noteq> k2"
proof
  assume eq: "k1 = k2"
  let ?q1 = "c_query (any_q (c_query (filter_q q a b)) qs)"
  let ?q2 = "c_query (filter_q (c_query (any_q q qs)) a b)"
  have cols: "o_columns (q_data ?q1) = o_columns (q_data ?q2)"
    and srt: "o_sort (q_data ?q1) = o_sort (q_data q)" "o_sort (q_data ?q2) = o_sort (q_data q)"
    and pag: "o_pagination (q_data ?q1) = o_pagination (q_data q)"
      "o_pagination (q_data ?q2) = o_pagination (q_data q)"
    by (simp_all add: any_q_data filter_q_data coalesce_def)
  have c1: "\<not> callable (o_columns (q_data ?q1))" and c2: "\<not> callable (o_columns (q_data ?q2))"
    using nc(1) by (auto simp add: any_q_data filter_q_data coalesce_def)
  from k1 obtain t1 where t1: "stringify (key_object ?q1) = Some t1" "k1 = toBase64 t1"
    by (auto simp: key_def)
  from k2 obtain t2 where t2: "stringify (key_object ?q2) = Some t2" "k2 = toBase64 t2"
    by (auto simp: key_def)
  from eq t1(2) t2(2) have tt: "t1 = t2" by (simp add: toBase64_inj)
  have kt1: "key_text ?q1 = Some t1"
    using t1(1) stringify_key_object [of ?q1] c1 nc(2,3) srt pag by simp
  have kt2: "key_text ?q2 = Some t2"
    using t2(1) stringify_key_object [of ?q2] c2 nc(2,3) srt pag by simp
  let ?F1 = "JObj ((''$any'', JArr (map filter_of qs)) #
      [(''$all'', filter_prop (q_data (c_query (filter_q q a b))) ''$all''),
       (''$not'', filter_prop (q_data (c_query (filter_q q a b))) ''$not''),
       (''$none'', filter_prop (q_data (c_query (filter_q q a b))) ''$none'')])"
  let ?F2 = "JObj ((''$all'', JArr (compact (flat [filter_prop (q_data (c_query (any_q q qs))) ''$all'']
         @ [JObj [(a, b)]]))) #
      [(''$any'', filter_prop (q_data (c_query (any_q q qs))) ''$any''),
       (''$not'', filter_prop (q_data (c_query (any_q q qs))) ''$not''),
       (''$none'', filter_prop (q_data (c_query (any_q q qs))) ''$none'')])"
  from kt1 obtain c f1 r1 where 1: "stringify (default_to (o_columns (q_data ?q1)) (JArr [])) = Some c"
    "stringify ?F1 = Some f1" "t1 = ''{\"columns\":'' @ c @ '',\"filter\":'' @ f1 @ r1"
    unfolding key_text_def by (auto simp add: any_q_data split: option.splits)
  from kt2 obtain c' f2 r2 where 2: "stringify (default_to (o_columns (q_data ?q2)) (JArr [])) = Some c'"
    "stringify ?F2 = Some f2" "t2 = ''{\"columns\":'' @ c' @ '',\"filter\":'' @ f2 @ r2"
    unfolding key_text_def by (auto simp add: filter_q_data split: option.splits)
  from 1(1) 2(1) cols have cc: "c' = c" by simp
  from object_text_starts_with_first_key [OF 1(2)] obtain u1 where u1: "f1 = ''{'' @ quote ''$any'' @ '':'' @ u1"
    by auto
  from object_text_starts_with_first_key [OF 2(2)] obtain u2 where u2: "f2 = ''{'' @ quote ''$all'' @ '':'' @ u2"
    by auto
  from tt 1(3) 2(3) cc u1 u2 show False
    by (simp add: quote_any quote_all)
qed

text \<open>
  Claim C4, as the code has it.  \<^verbatim>\<open>key()\<close> is the Base64 text of
  \<^verbatim>\<open>JSON.stringify({columns, filter, sort, pagination})\<close>.
  \<^item> Two queries whose resolved columns, filter, sort and pagination are identical, the key
    order of the filter object included, have the same key, whatever their tables and
    cache settings are.
  \<^item> When none of columns, sort and pagination is a function, the key is the Base64 text
    of \<^verbatim>\<open>{"columns":c,"filter":f,"sort":s,"pagination":p}\<close>, where \<open>c\<close>, \<open>f\<close>, \<open>s\<close>, \<open>p\<close> are
    the serializations of the columns (\<^verbatim>\<open>[]\<close> when undefined), the filter, the sort
    (\<^verbatim>\<open>[]\<close>) and the pagination (\<^verbatim>\<open>{}\<close>); and there is a key exactly when all four can be
    serialized.
  \<^item> Two queries have the same key exactly when their serialized texts are the same.
  \<^item> The text depends on the order of the builder calls: for every query \<open>q\<close>,
    \<^verbatim>\<open>q.filter(a, b).any(...qs)\<close> and \<^verbatim>\<open>q.any(...qs).filter(a, b)\<close> resolve to the same columns,
    sort, pagination and filter members, and their keys, when they have keys, differ:
    the one filter object starts with \<^verbatim>\<open>$any\<close>, the other with \<^verbatim>\<open>$all\<close>.
\<close>

theorem key_is_base64_of_json_text:
  "(o_columns (q_data q1) = o_columns (q_data q2) \<and> o_filter (q_data q1) = o_filter (q_data q2)
      \<and> o_sort (q_data q1) = o_sort (q_data q2)
      \<and> o_pagination (q_data q1) = o_pagination (q_data q2) \<longrightarrow> key q1 = key q2)
   \<and> (\<not> callable (o_columns (q_data q)) \<and> \<not> callable (o_sort (q_data q))
      \<and> \<not> callable (o_pagination (q_data q)) \<longrightarrow>
        (\<forall>c f s p.
           stringify (default_to (o_columns (q_data q)) (JArr [])) = Some c
           \<and> stringify (case o_filter (q_data q) of None \<Rightarrow> JObj [] | Some g \<Rightarrow> JObj g) = Some f
           \<and> stringify (default_to (o_sort (q_data q)) (JArr [])) = Some s
           \<and> stringify (default_to (o_pagination (q_data q)) (JObj [])) = Some p \<longrightarrow>
           key q = Some (toBase64 (''{\"columns\":'' @ c @ '',\"filter\":'' @ f @ '',\"sort\":'' @ s
                                   @ '',\"pagination\":'' @ p @ ''}'')))
        \<and> (key q = None \<longleftrightarrow>
             stringify (default_to (o_columns (q_data q)) (JArr [])) = None
             \<or> stringify (case o_filter (q_data q) of None \<Rightarrow> JObj [] | Some g \<Rightarrow> JObj g) = None
             \<or> stringify (default_to (o_sort (q_data q)) (JArr [])) = None
             \<or> stringify (default_to (o_pagination (q_data q)) (JObj [])) = None))
   \<and> (key q1 = key q2 \<longleftrightarrow> stringify (key_object q1) = stringify (key_object q2))
   \<and> same_resolved (c_query (any_q (c_query (filter_q q a b)) qs))
                    (c_query (filter_q (c_query (any_q q qs)) a b))
   \<and> (\<not> callable (o_columns (q_data q)) \<and> \<not> callable (o_sort (q_data q))
      \<and> \<not> callable (o_pagination (q_data q)) \<longrightarrow>
        (\<forall>k1 k2. key (c_query (any_q (c_query (filter_q q a b)) qs)) = Some k1
                 \<and> key (c_query (filter_q (c_query (any_q q qs)) a b)) = Some k2 \<longrightarrow> k1 \<noteq> k2))"
proof -
  have cong: "o_columns (q_data q1) = o_columns (q_data q2) \<and> o_filter (q_data q1) = o_filter (q_data q2)
      \<and> o_sort (q_data q1) = o_sort (q_data q2)
      \<and> o_pagination (q_data q1) = o_pagination (q_data q2) \<longrightarrow> key q1 = key q2"
    by (simp add: key_def key_object_def)
  have layout: "(\<forall>c f s p.
           stringify (default_to (o_columns (q_data q)) (JArr [])) = Some c
           \<and> stringify (case o_filter (q_data q) of None \<Rightarrow> JObj [] | Some g \<Rightarrow> JObj g) = Some f
           \<and> stringify (default_to (o_sort (q_data q)) (JArr [])) = Some s
           \<and> stringify (default_to (o_pagination (q_data q)) (JObj [])) = Some p \<longrightarrow>
           key q = Some (toBase64 (''{\"columns\":'' @ c @ '',\"filter\":'' @ f @ '',\"sort\":'' @ s
                                   @ '',\"pagination\":'' @ p @ ''}'')))
        \<and> (key q = None \<longleftrightarrow>
             stringify (default_to (o_columns (q_data q)) (JArr [])) = None
             \<or> stringify (case o_filter (q_data q) of None \<Rightarrow> JObj [] | Some g \<Rightarrow> JObj g) = None
             \<or> stringify (default_to (o_sort (q_data q)) (JArr [])) = None
             \<or> stringify (default_to (o_pagination (q_data q)) (JObj [])) = None)"
    if nc: "\<not> callable (o_columns (q_data q)) \<and> \<not> callable (o_sort (q_data q))
      \<and> \<not> callable (o_pagination (q_data q))"
  proof -
    from nc have "stringify (key_object q) = key_text q"
      by (simp add: stringify_key_object)
    then have k: "key q = map_option toBase64 (key_text q)"
      by (simp add: key_def)
    show ?thesis
      unfolding k key_text_def by (auto split: option.splits)
  qed
  have inj: "key q1 = key q2 \<longleftrightarrow> stringify (key_object q1) = stringify (key_object q2)"
    by (cases "stringify (key_object q1)"; cases "stringify (key_object q2)")
       (auto simp: key_def dest: toBase64_inj)
  have same: "same_resolved (c_query (any_q (c_query (filter_q q a b)) qs))
                    (c_query (filter_q (c_query (any_q q qs)) a b))"
    by (rule any_filter_same_resolved)
  have differ: "\<forall>k1 k2. key (c_query (any_q (c_query (filter_q q a b)) qs)) = Some k1
                 \<and> key (c_query (filter_q (c_query (any_q q qs)) a b)) = Some k2 \<longrightarrow> k1 \<noteq> k2"
    if nc: "\<not> callable (o_columns (q_data q)) \<and> \<not> callable (o_sort (q_data q))
      \<and> \<not> callable (o_pagination (q_data q))"
  proof (intro allI impI)
    fix k1 k2
    assume k: "key (c_query (any_q (c_query (filter_q q a b)) qs)) = Some k1
                 \<and> key (c_query (filter_q (c_query (any_q q qs)) a b)) = Some k2"
    from nc have n1: "\<not> callable (o_columns (q_data q))" and n2: "\<not> callable (o_sort (q_data q))"
      and n3: "\<not> callable (o_pagination (q_data q))" by simp_all
    from k have k1: "key (c_query (any_q (c_query (filter_q q a b)) qs)) = Some k1"
      and k2: "key (c_query (filter_q (c_query (any_q q qs)) a b)) = Some k2" by simp_all
    show "k1 \<noteq> k2" by (rule any_filter_keys_differ [OF n1 n2 n3 k1 k2])
  qed
  show ?thesis
    apply (intro conjI)
        apply (rule cong)
       apply (intro impI, rule layout, assumption)
      apply (rule inj)
     apply (rule same)
    apply (intro impI, rule differ, assumption)
    done
qed

text \<open>
  The same state reached by \<^verbatim>\<open>sort\<close> then \<^verbatim>\<open>select\<close> on table \<^verbatim>\<open>t\<close>, and by \<^verbatim>\<open>select\<close>
  then \<^verbatim>\<open>sort\<close> on table \<^verbatim>\<open>u\<close>; the key of a fresh query; and the two orders of
  \<^verbatim>\<open>filter\<close> and \<^verbatim>\<open>any\<close>.
\<close>

theorem key_is_base64_of_json_text_witness:
  "key (c_query (select_q (c_query (sort_q (base_query ''t'') ''name'' ''asc'')) (JArr [JStr ''id''])))
     = key (c_query (sort_q (c_query (select_q (base_query ''u'') (JArr [JStr ''id'']))) ''name'' ''asc''))
   \<and> key (base_query ''t'')
     = Some (toBase64 ''{\"columns\":[\"*\"],\"filter\":{},\"sort\":[],\"pagination\":{}}'')
   \<and> (case (key (c_query (any_q (c_query (filter_q (base_query ''t'') ''a'' (JNum 1))) [base_query ''t''])),
             key (c_query (filter_q (c_query (any_q (base_query ''t'') [base_query ''t''])) ''a'' (JNum 1))))
       of (Some k1, Some k2) \<Rightarrow> k1 \<noteq> k2 | _ \<Rightarrow> False)"
proof -
  let ?b = "base_query ''t''"
  let ?s1 = "c_query (select_q (c_query (sort_q (base_query ''t'') ''name'' ''asc'')) (JArr [JStr ''id'']))"
  let ?s2 = "c_query (sort_q (c_query (select_q (base_query ''u'') (JArr [JStr ''id'']))) ''name'' ''asc'')"
  let ?qa = "c_query (any_q (c_query (filter_q ?b ''a'' (JNum 1))) [?b])"
  let ?qb = "c_query (filter_q (c_query (any_q ?b [?b])) ''a'' (JNum 1))"
  note t = key_is_base64_of_json_text [where ?q1.0 = ?s1 and ?q2.0 = ?s2 and q = ?b
      and a = "''a''" and b = "JNum 1" and qs = "[?b]"]
  have h1: "o_columns (q_data ?s1) = o_columns (q_data ?s2) \<and> o_filter (q_data ?s1) = o_filter (q_data ?s2)
      \<and> o_sort (q_data ?s1) = o_sort (q_data ?s2)
      \<and> o_pagination (q_data ?s1) = o_pagination (q_data ?s2)"
    by (simp add: select_q_def sort_q_def base_query_def ctor_defs)
  from t [THEN conjunct1, THEN mp, OF h1] have a: "key ?s1 = key ?s2" .
  have bd: "q_data ?b = \<lparr>o_filter = Some [(''$any'', JUndef), (''$all'', JUndef), (''$not'', JUndef),
        (''$none'', JUndef)], o_sort = JUndef, o_columns = JArr [JStr ''*''], o_pagination = JUndef,
        o_cache = JUndef\<rparr>"
    by (simp add: base_query_def ctor_defs)
  have nc: "\<not> callable (o_columns (q_data ?b)) \<and> \<not> callable (o_sort (q_data ?b))
      \<and> \<not> callable (o_pagination (q_data ?b))"
    by (simp add: bd)
  have parts: "stringify (default_to (o_columns (q_data ?b)) (JArr [])) = Some ''[\"*\"]''
      \<and> stringify (case o_filter (q_data ?b) of None \<Rightarrow> JObj [] | Some g \<Rightarrow> JObj g) = Some ''{}''
      \<and> stringify (default_to (o_sort (q_data ?b)) (JArr [])) = Some ''[]''
      \<and> stringify (default_to (o_pagination (q_data ?b)) (JObj [])) = Some ''{}''"
    by (simp add: bd default_to_def quote_def escape_char_def)
  from t [THEN conjunct2, THEN conjunct1, THEN mp, OF nc, THEN conjunct1, rule_format, OF parts]
  have b: "key ?b = Some (toBase64 ''{\"columns\":[\"*\"],\"filter\":{},\"sort\":[],\"pagination\":{}}'')"
    by simp
  have ka: "key ?qa = Some ''eyJjb2x1bW5zIjpbIioiXSwiZmlsdGVyIjp7IiRhbnkiOlt7fV0sIiRhbGwiOlt7ImEiOjF9XX0sInNvcnQiOltdLCJwYWdpbmF0aW9uIjp7fX0=''"
    by code_simp
  have kb: "key ?qb = Some ''eyJjb2x1bW5zIjpbIioiXSwiZmlsdGVyIjp7IiRhbGwiOlt7ImEiOjF9XSwiJGFueSI6W3t9XX0sInNvcnQiOltdLCJwYWdpbmF0aW9uIjp7fX0=''"
    by code_simp
  from t [THEN conjunct2, THEN conjunct2, THEN conjunct2, THEN conjunct2, THEN mp, OF nc,
      rule_format, OF conjI [OF ka kb]]
  have c: "case (key ?qa, key ?qb) of (Some k1, Some k2) \<Rightarrow> k1 \<noteq> k2 | _ \<Rightarrow> False"
    unfolding ka kb by simp
  from a b c show ?thesis by (intro conjI)
qed

text \<open>
  Claim C4 as the spec words it fails.  \<^verbatim>\<open>base.filter("a", 1).any(base)\<close> and
  \<^verbatim>\<open>base.any(base).filter("a", 1)\<close> resolve to the same columns, sort, pagination and
  filter members, but the first filter object has its keys in the order \<^verbatim>\<open>$any\<close>,
  \<^verbatim>\<open>$all\<close> and the second in the order \<^verbatim>\<open>$all\<close>, \<^verbatim>\<open>$any\<close>; the serialization follows
  that order and the two keys differ.
\<close>

theorem key_depends_on_call_order:
  "same_resolved
     (c_query (any_q (c_query (filter_q (base_query ''t'') ''a'' (JNum 1))) [base_query ''t'']))
     (c_query (filter_q (c_query (any_q (base_query ''t'') [base_query ''t''])) ''a'' (JNum 1)))
   \<and> key (c_query (any_q (c_query (filter_q (base_query ''t'') ''a'' (JNum 1))) [base_query ''t'']))
     \<noteq> key (c_query (filter_q (c_query (any_q (base_query ''t'') [base_query ''t''])) ''a'' (JNum 1)))"
  by code_simp


section \<open>Properties of pagination\<close>

lemma coalesce_idem: "coalesce (coalesce a b) b = coalesce a b"
  by (simp add: coalesce_def)

definition inherit4 :: "obj \<Rightarrow> options option \<Rightarrow> obj" where
  "inherit4 f p =
     assign (assign (assign (assign f
       ''$any'' (coalesce (lookup f ''$any'') (parent_filter_prop p ''$any'')))
       ''$all'' (coalesce (lookup f ''$all'') (parent_filter_prop p ''$all'')))
       ''$not'' (coalesce (lookup f ''$not'') (parent_filter_prop p ''$not'')))
       ''$none'' (coalesce (lookup f ''$none'') (parent_filter_prop p ''$none''))"

lemma inherit4_idem: "inherit4 (inherit4 f p) p = inherit4 f p"
  unfolding inherit4_def
  by (simp add: lookup_assign coalesce_idem assign_same keys_assign)

lemma Query_new_data_filter:
  "o_filter d = Some f \<Longrightarrow>
   Query_new t d p =
     \<lparr>c_query = \<lparr>q_table = t, q_data =
         \<lparr>o_filter = Some (inherit4 f p),
          o_sort = coalesce (o_sort d) (parent_field p o_sort),
          o_columns = coalesce (coalesce (o_columns d) (parent_field p o_columns)) (JArr [JStr ''*'']),
          o_pagination = coalesce (o_pagination d) (parent_field p o_pagination),
          o_cache = coalesce (o_cache d) (parent_field p o_cache)\<rparr>\<rparr>,
      c_data = d\<lparr>o_filter := Some (inherit4 f p)\<rparr>,
      c_parent = p\<rparr>"
  by (simp add: Query_new_def filter_alias_def combinator_def filter_prop_def inherit4_def Let_def)

lemma Query_new_no_data_filter:
  "o_filter d = None \<Longrightarrow> c_data (Query_new t d p) = d"
  by (simp add: Query_new_def filter_alias_def Let_def split: option.splits)

lemma Query_new_cong:
  "o_filter d = None \<Longrightarrow> o_filter d' = None \<Longrightarrow> o_sort d = o_sort d' \<Longrightarrow> o_columns d = o_columns d'
    \<Longrightarrow> o_pagination d = o_pagination d' \<Longrightarrow> o_cache d = o_cache d'
    \<Longrightarrow> c_query (Query_new t d p) = c_query (Query_new t d' p)"
  by (simp add: Query_new_def filter_alias_def Let_def combinator_def filter_prop_def split: option.splits)

lemma o_filter_update_same: "o_filter opts = x \<Longrightarrow> opts\<lparr>o_filter := x\<rparr> = opts"
  by (cases opts) simp

lemma request_again:
  "c_query (derive q (page_options (opts\<lparr>o_filter := o_filter (c_data (derive q (page_options opts b off)))\<rparr>) b' off'))
   = c_query (derive q (page_options opts b' off'))"
proof (cases "o_filter opts")
  case None
  then show ?thesis
    by (simp add: derive_def page_options_def Query_new_no_data_filter o_filter_update_same)
next
  case (Some f)
  then show ?thesis
    by (simp add: derive_def page_options_def Query_new_data_filter inherit4_idem)
qed

lemma page_request_next:
  "page_request q (next_options q opts b off) b' off' = page_request q opts b' off'"
  by (simp add: page_request_def next_options_def request_again)

lemma iterate_step:
  "iterate repo q opts b off hist batches =
     (case repo (hist @ [page_request q opts b off]) of
        Inl e \<Rightarrow> Some (Inl e, hist @ [page_request q opts b off])
      | Inr pg \<Rightarrow>
          if p_more pg
          then iterate repo q (next_options q opts b off) b (off + b)
                 (hist @ [page_request q opts b off]) (batches @ [p_records pg])
          else Some (Inr (batches @ [p_records pg]), hist @ [page_request q opts b off]))"
  by (subst iterate.simps)
     (simp add: getPaginated_def page_request_def next_options_def Let_def split: sum.splits)

lemma iterate_more:
  "response_more (repo (hist @ [page_request q opts b off])) = Some True \<Longrightarrow>
   iterate repo q opts b off hist batches =
     iterate repo q (next_options q opts b off) b (off + b) (hist @ [page_request q opts b off])
       (batches @ [response_records (repo (hist @ [page_request q opts b off]))])"
  by (subst iterate_step) (simp add: response_more_def response_records_def split: sum.splits)

lemma iterate_last:
  "response_more (repo (hist @ [page_request q opts b off])) = Some False \<Longrightarrow>
   iterate repo q opts b off hist batches =
     Some (Inr (batches @ [response_records (repo (hist @ [page_request q opts b off]))]),
           hist @ [page_request q opts b off])"
  by (subst iterate_step) (simp add: response_more_def response_records_def split: sum.splits)

text \<open>
  Claim C5.  For every transport that answers the first and the second request with
  \<^verbatim>\<open>more = true\<close> and the third with \<^verbatim>\<open>more = false\<close>, \<^verbatim>\<open>getAll()\<close> returns, makes
  exactly three requests (the history it leaves has these three queries and no fourth),
  and its result is the records of the three pages in order.  Each request asks for
  \<^verbatim>\<open>PAGINATION_MAX_SIZE\<close> records, at the offsets 0, 1 and 2 times that size.
\<close>

theorem getAll_three_pages:
  assumes m12: "\<forall>h. length h = 1 \<or> length h = 2 \<longrightarrow> response_more (repo h) = Some True"
    and m3: "\<forall>h. length h = 3 \<longrightarrow> response_more (repo h) = Some False"
  shows "getAll max_size repo q opts None [] =
           Some (Inr (response_records (repo [page_request q opts max_size 0])
                    @ response_records (repo [page_request q opts max_size 0,
                                              page_request q opts max_size max_size])
                    @ response_records (repo [page_request q opts max_size 0,
                                              page_request q opts max_size max_size,
                                              page_request q opts max_size (2 * max_size)])),
                 [page_request q opts max_size 0,
                  page_request q opts max_size max_size,
                  page_request q opts max_size (2 * max_size)])
       \<and> o_pagination (q_data (page_request q opts max_size 0))
            = JObj [(''size'', JNum max_size), (''offset'', JNum 0)]
       \<and> o_pagination (q_data (page_request q opts max_size max_size))
            = JObj [(''size'', JNum max_size), (''offset'', JNum max_size)]
       \<and> o_pagination (q_data (page_request q opts max_size (2 * max_size)))
            = JObj [(''size'', JNum max_size), (''offset'', JNum (2 * max_size))]"
proof -
  let ?r1 = "page_request q opts max_size 0"
  let ?r2 = "page_request q opts max_size max_size"
  let ?r3 = "page_request q opts max_size (2 * max_size)"
  let ?o1 = "next_options q opts max_size 0"
  let ?o2 = "next_options q ?o1 max_size max_size"
  have a1: "response_more (repo ([] @ [?r1])) = Some True"
    using m12 by simp
  have r2: "page_request q ?o1 max_size (0 + max_size) = ?r2"
    by (simp add: page_request_next)
  have a2: "response_more (repo (([] @ [?r1]) @ [?r2])) = Some True"
    using m12 by simp
  have r3: "page_request q ?o2 max_size (0 + max_size + max_size) = ?r3"
    by (simp add: page_request_next)
  have a3: "response_more (repo ((([] @ [?r1]) @ [?r2]) @ [?r3])) = Some False"
    using m3 by simp
  have "iterate repo q opts max_size 0 [] [] =
          iterate repo q ?o1 max_size (0 + max_size) ([] @ [?r1])
            ([] @ [response_records (repo ([] @ [?r1]))])"
    using iterate_more [of repo "[]" q opts max_size 0 "[]"] a1 by simp
  also have "\<dots> = iterate repo q ?o2 max_size (0 + max_size + max_size) (([] @ [?r1]) @ [?r2])
            (([] @ [response_records (repo ([] @ [?r1]))])
              @ [response_records (repo (([] @ [?r1]) @ [?r2]))])"
    using iterate_more [of repo "[] @ [?r1]" q ?o1 max_size "0 + max_size"] a2 r2
    by simp
  also have "\<dots> = Some (Inr ((([] @ [response_records (repo ([] @ [?r1]))])
              @ [response_records (repo (([] @ [?r1]) @ [?r2]))])
              @ [response_records (repo ((([] @ [?r1]) @ [?r2]) @ [?r3]))]),
            (([] @ [?r1]) @ [?r2]) @ [?r3])"
    using iterate_last [of repo "([] @ [?r1]) @ [?r2]" q ?o2 max_size "0 + max_size + max_size"] a3 r3
    by simp
  finally have it: "iterate repo q opts max_size 0 [] [] =
      Some (Inr [response_records (repo [?r1]), response_records (repo [?r1, ?r2]),
                 response_records (repo [?r1, ?r2, ?r3])], [?r1, ?r2, ?r3])"
    by simp
  have pg: "\<And>off. o_pagination (q_data (page_request q opts max_size off))
      = JObj [(''size'', JNum max_size), (''offset'', JNum off)]"
    by (simp add: page_request_def page_options_def derive_def Query_new_def Let_def coalesce_def
        split: prod.splits)
  show ?thesis
    by (simp add: getAll_def getIterator_def it pg)
qed

theorem getAll_three_pages_witness:
  "map_option (\<lambda>(r, h). (r, length h)) (getAll 200 three_pages (base_query ''t'') no_options None [])
     = Some (Inr [JNum 1, JNum 2, JNum 3], 3)"
proof -
  have m12: "\<forall>h. length h = 1 \<or> length h = 2 \<longrightarrow> response_more (three_pages h) = Some True"
    by (auto simp add: three_pages_def response_more_def)
  have m3: "\<forall>h. length h = 3 \<longrightarrow> response_more (three_pages h) = Some False"
    by (simp add: three_pages_def response_more_def)
  have rr: "\<And>h. response_records (three_pages h) = [JNum (int (length h))]"
    by (simp add: three_pages_def response_records_def)
  have "getAll 200 three_pages (base_query ''t'') no_options None [] =
      Some (Inr [JNum 1, JNum 2, JNum 3],
        [page_request (base_query ''t'') no_options 200 0,
         page_request (base_query ''t'') no_options 200 200,
         page_request (base_query ''t'') no_options 200 400])"
    using getAll_three_pages [OF m12 m3, of 200 "base_query ''t''" no_options]
    by (simp add: rr)
  then show ?thesis by simp
qed

section \<open>Properties of hydration\<close>

text \<open>
  The bound that \<open>initObject\<close> uses is enough: it always returns, a record or the error
  thrown.
\<close>

lemma depth_lookup: "depth (lookup o1 k) \<le> depth_members o1"
  by (induction o1) auto

lemma depth_assign: "depth_members (assign o1 k v) \<le> max (depth_members o1) (depth v)"
  by (induction o1) auto

lemma depth_filter: "depth_members (filter P kvs) \<le> depth_members kvs"
  by (induction kvs) auto

lemma depth_indexed: "depth_members (indexed i xs) = depth_list xs"
  by (induction xs arbitrary: i) auto

lemma depth_chars: "depth_list (map (\<lambda>c. JStr [c]) s) = 0"
  by (induction s) auto

lemma depth_own_entries: "depth_members (own_entries v) \<le> depth v"
  by (cases v) (auto simp: depth_indexed depth_chars intro: le_SucI depth_filter)

lemma depth_own_entries_object: "is_object v \<Longrightarrow> Suc (depth_members (own_entries v)) \<le> depth v"
  by (cases v) (auto simp: depth_indexed depth_filter)

lemma depth_own_entries_leaf: "\<not> is_object v \<Longrightarrow> depth_members (own_entries v) = 0"
  by (cases v) (auto simp: depth_indexed depth_chars)

lemma depth_bind_methods: "depth_members (bind_methods t o1) \<le> depth_members o1"
proof -
  have a: "\<And>o2 k c. depth_members (assign o2 k (JFun c)) \<le> depth_members o2"
    using depth_assign [of _ _ "JFun _"] by (metis depth.simps(8) max_0R)
  show ?thesis
    unfolding bind_methods_def by (meson a order_trans)
qed

lemma depth_get_prop: "is_object v \<Longrightarrow> Suc (depth (get_prop v k)) \<le> depth v"
  by (cases v) (auto simp: depth_lookup)

lemma link_step_total:
  assumes rec: "\<And>t v. is_object v \<Longrightarrow> depth v \<le> m \<Longrightarrow>
      \<exists>x. rec t v = Some x \<and> (\<forall>r. x = Inr r \<longrightarrow> depth r \<le> depth v)"
    and o1: "depth_members o1 \<le> m"
  shows "\<exists>x. link_step rec o1 field lt = Some x
    \<and> (\<forall>o2. x = Inr o2 \<longrightarrow> depth_members o2 \<le> depth_members o1)"
proof -
  let ?v = "lookup o1 field"
  have dv: "depth ?v \<le> depth_members o1" by (rule depth_lookup)
  show ?thesis
  proof (cases "truthy ?v \<and> is_object ?v")
    case False
    then show ?thesis by (auto simp: link_step_def Let_def)
  next
    case True
    note tv = True
    then have obj: "is_object ?v" by simp
    show ?thesis
    proof (cases "''id'' \<in> set (own_keys ?v)")
      case True
      note key = True
      from rec [OF obj, of lt] dv o1 obtain x where x: "rec lt ?v = Some x"
        "\<forall>r. x = Inr r \<longrightarrow> depth r \<le> depth ?v"
        by (meson order_trans)
      show ?thesis
      proof (cases x)
        case (Inl e)
        with key tv x(1) show ?thesis by (simp add: link_step_def Let_def)
      next
        case (Inr r)
        then have "depth r \<le> depth ?v" using x(2) by simp
        then have "depth_members (assign o1 field r) \<le> depth_members o1"
          using depth_assign [of o1 field r] dv by simp
        with key tv x(1) Inr show ?thesis by (simp add: link_step_def Let_def)
      qed
    next
      case False
      let ?ref = "JObj [(''id'', get_prop ?v ''id''), (''get'', JFun (LinkGet lt (get_prop ?v ''id'')))]"
      have "depth ?ref \<le> depth ?v"
        using depth_get_prop [OF obj, of "''id''"] by simp
      then have "depth_members (assign o1 field ?ref) \<le> depth_members o1"
        using depth_assign [of o1 field ?ref] dv by simp
      with False tv show ?thesis
        by (simp add: link_step_def Let_def)
    qed
  qed
qed

lemma hydrate_links_total:
  assumes rec: "\<And>t v. is_object v \<Longrightarrow> depth v \<le> m \<Longrightarrow>
      \<exists>x. rec t v = Some x \<and> (\<forall>r. x = Inr r \<longrightarrow> depth r \<le> depth v)"
  shows "depth_members o1 \<le> m \<Longrightarrow>
    \<exists>x. hydrate_links rec lks o1 = Some x
      \<and> (\<forall>o2. x = Inr o2 \<longrightarrow> depth_members o2 \<le> depth_members o1)"
proof (induction lks arbitrary: o1)
  case Nil
  then show ?case by simp
next
  case (Cons l lks)
  obtain field lt where l: "l = (field, lt)" by (cases l)
  from link_step_total [where rec = rec and field = field and lt = lt, OF rec Cons.prems]
  obtain x where x: "link_step rec o1 field lt = Some x"
    "\<forall>o2. x = Inr o2 \<longrightarrow> depth_members o2 \<le> depth_members o1"
    by blast
  show ?case
  proof (cases x)
    case (Inl e)
    with x(1) l show ?thesis by simp
  next
    case (Inr o2)
    then have d: "depth_members o2 \<le> depth_members o1" using x(2) by simp
    then have "depth_members o2 \<le> m" using Cons.prems by simp
    from Cons.IH [OF this] obtain y where y: "hydrate_links rec lks o2 = Some y"
      "\<forall>o3. y = Inr o3 \<longrightarrow> depth_members o3 \<le> depth_members o2" by blast
    have "hydrate_links rec (l # lks) o1 = Some y"
      using x(1) Inr l y(1) by simp
    moreover have "\<forall>o3. y = Inr o3 \<longrightarrow> depth_members o3 \<le> depth_members o1"
      using y(2) d by auto
    ultimately show ?thesis by blast
  qed
qed

lemma init_bounded_step:
  assumes rec: "\<And>t v. is_object v \<Longrightarrow> depth v \<le> m \<Longrightarrow>
      \<exists>x. init_bounded n ls t v = Some x \<and> (\<forall>r. x = Inr r \<longrightarrow> depth r \<le> depth v)"
    and own: "depth_members (own_entries v) \<le> m"
  shows "\<exists>x. init_bounded (Suc n) ls t v = Some x
    \<and> (\<forall>r. x = Inr r \<longrightarrow>
          (\<exists>o1. r = JObj o1 \<and> depth_members o1 \<le> depth_members (own_entries v)))"
proof (cases "table_links ls t")
  case (Inl e)
  then show ?thesis by simp
next
  case (Inr tableLinks)
  note tl = Inr
  from hydrate_links_total [where rec = "init_bounded n ls" and m = m and lks = tableLinks, OF rec own]
  obtain x where x: "hydrate_links (init_bounded n ls) tableLinks (own_entries v) = Some x"
    "\<forall>o2. x = Inr o2 \<longrightarrow> depth_members o2 \<le> depth_members (own_entries v)" by blast
  show ?thesis
  proof (cases x)
    case (Inl e)
    with tl x(1) show ?thesis by simp
  next
    case (Inr o2)
    then have "depth_members o2 \<le> depth_members (own_entries v)" using x(2) by simp
    then have "depth_members (bind_methods t o2) \<le> depth_members (own_entries v)"
      using depth_bind_methods [of t o2] by (rule order_trans [rotated])
    with tl x(1) Inr show ?thesis by simp
  qed
qed

lemma init_bounded_enough:
  "depth v \<le> n \<Longrightarrow>
   \<exists>x. init_bounded (Suc n) ls t v = Some x
     \<and> (\<forall>r. x = Inr r \<longrightarrow>
           (\<exists>o1. r = JObj o1 \<and> depth_members o1 \<le> depth_members (own_entries v)))"
proof (induction n arbitrary: t v)
  case 0
  then have leaf: "\<not> is_object v" by (cases v) auto
  have rec: "\<And>t v. is_object v \<Longrightarrow> depth v \<le> 0 \<Longrightarrow>
      \<exists>x. init_bounded 0 ls t v = Some x \<and> (\<forall>r. x = Inr r \<longrightarrow> depth r \<le> depth v)"
    by (case_tac v) auto
  have "depth_members (own_entries v) \<le> 0"
    using depth_own_entries_leaf [OF leaf] by simp
  with rec show ?case by (rule init_bounded_step)
next
  case (Suc n)
  have rec: "\<And>t v. is_object v \<Longrightarrow> depth v \<le> n \<Longrightarrow>
      \<exists>x. init_bounded (Suc n) ls t v = Some x \<and> (\<forall>r. x = Inr r \<longrightarrow> depth r \<le> depth v)"
  proof -
    fix t v assume a: "is_object v" "depth v \<le> n"
    from Suc.IH [OF a(2), of t] obtain x where x:
      "init_bounded (Suc n) ls t v = Some x"
      "\<forall>r. x = Inr r \<longrightarrow>
          (\<exists>o1. r = JObj o1 \<and> depth_members o1 \<le> depth_members (own_entries v))"
      by blast
    have "\<forall>r. x = Inr r \<longrightarrow> depth r \<le> depth v"
      using x(2) depth_own_entries_object [OF a(1)] by auto
    with x(1) show "\<exists>x. init_bounded (Suc n) ls t v = Some x
        \<and> (\<forall>r. x = Inr r \<longrightarrow> depth r \<le> depth v)"
      by blast
  qed
  have "depth_members (own_entries v) \<le> n"
  proof (cases "is_object v")
    case True
    then show ?thesis using depth_own_entries_object [of v] Suc.prems by simp
  next
    case False
    then show ?thesis by (simp add: depth_own_entries_leaf)
  qed
  with rec show ?case by (rule init_bounded_step)
qed

lemma initObject_returns:
  "\<exists>x. initObject ls t v = Some x \<and> (\<forall>r. x = Inr r \<longrightarrow> (\<exists>o1. r = JObj o1))"
proof -
  from init_bounded_enough [of v "depth v" ls t]
  obtain x where x: "init_bounded (Suc (depth v)) ls t v = Some x"
    "\<forall>r. x = Inr r \<longrightarrow>
        (\<exists>o1. r = JObj o1 \<and> depth_members o1 \<le> depth_members (own_entries v))"
    by blast
  from x(2) have "\<forall>r. x = Inr r \<longrightarrow> (\<exists>o1. r = JObj o1)" by blast
  with x(1) show ?thesis unfolding initObject_def by blast
qed
















text \<open>Hydration installs functions as the three methods only.\<close>

lemma is_method_fun: "is_method k v \<Longrightarrow> \<exists>c. v = JFun c"
  by (induction k v rule: is_method.induct) auto






























text \<open>
  Claim C3, evaluated on the code.  The spec's scenario row under the spec's link map:
  the author, whose only field is \<^verbatim>\<open>id\<close>, is hydrated as a nested record of the table
  \<^verbatim>\<open>authors\<close>.  Its \<^verbatim>\<open>id\<close> is \<^verbatim>\<open>"a1"\<close> and its \<^verbatim>\<open>name\<close> is undefined, but its \<^verbatim>\<open>get\<close> is
  undefined too: there is no lazy accessor to call.
\<close>

theorem scenario_author_has_no_get:
  "initObject scenario_links ''users'' scenario_row =
     Some (Inr (JObj [(''id'', JStr ''1''), (''xata'', JObj [(''version'', JNum 0)]),
       (''author'', JObj [(''id'', JStr ''a1''),
          (''read'', JFun (ReadRecord ''authors'' (JStr ''a1''))),
          (''update'', JFun (UpdateRecord ''authors'' (JStr ''a1''))),
          (''delete'', JFun (DeleteRecord ''authors'' (JStr ''a1'')))]),
       (''read'', JFun (ReadRecord ''users'' (JStr ''1''))),
       (''update'', JFun (UpdateRecord ''users'' (JStr ''1''))),
       (''delete'', JFun (DeleteRecord ''users'' (JStr ''1'')))]))
   \<and> map_option (map_sum id (\<lambda>r. (get_prop (get_prop r ''author'') ''id'',
                       get_prop (get_prop r ''author'') ''name'',
                       get_prop (get_prop r ''author'') ''get'',
                       callable (get_prop (get_prop r ''author'') ''get''))))
        (initObject scenario_links ''users'' scenario_row)
     = Some (Inr (JStr ''a1'', JUndef, JUndef, False))"
  by code_simp

section \<open>Properties of branch resolution\<close>


lemma cached_Some: "cached v = Some b \<longleftrightarrow> v = Name b \<and> b \<noteq> []"
  by (cases v) auto














lemma resolve_Some_nonempty: "resolve ss w = (Inr (Some b), w') \<Longrightarrow> b \<noteq> []"
proof (induction ss arbitrary: w)
  case Nil
  then show ?case by simp
next
  case (Cons s ss)
  obtain r w1 where e: "evaluateBranch s w = (r, w1)" by (cases "evaluateBranch s w")
  show ?case
  proof (cases r)
    case (Inl err)
    with Cons.prems e show ?thesis by simp
  next
    case (Inr v)
    with Cons e show ?thesis
      by (cases v) (auto split: if_splits)
  qed
qed

lemma getBranch_memoizes:
  assumes "getBranch c w = (Inr b, c', w')"
  shows "branch c' = Name b \<and> b \<noteq> []"
proof (cases "cached (branch c)")
  case (Some b0)
  with assms show ?thesis by (auto simp: getBranch_def cached_Some)
next
  case None
  obtain r w1 where r: "resolve (strategies_of (branch_option c)) w = (r, w1)"
    by (cases "resolve (strategies_of (branch_option c)) w")
  with None assms have "r = Inr (Some b)" "c' = c\<lparr>branch := Name b\<rparr>"
    by (auto simp: getBranch_def split: sum.splits option.splits)
  with r resolve_Some_nonempty show ?thesis by fastforce
qed

lemma getBranch_cached:
  "branch c = Name b \<Longrightarrow> b \<noteq> [] \<Longrightarrow> getBranch c w = (Inr b, c, w)"
  by (simp add: getBranch_def)

lemma getBranch_keeps_memo:
  assumes "cached (branch c) \<noteq> None" "getBranch c w = (r, c', w')"
  shows "c' = c \<and> w' = w"
  using assms by (auto simp: getBranch_def)

lemma evaluate_branch_memoizes:
  assumes "evaluate_branch memo param w = (Inr (Name b), memo', w')"
  shows "memo' = Name b \<and> b \<noteq> []"
proof (cases "branch_truthy memo")
  case True
  with assms show ?thesis by (cases memo) (auto simp: evaluate_branch_def)
next
  case False
  with assms obtain opt where opt: "param = Some opt" "option_truthy opt"
    by (cases param) (auto simp: evaluate_branch_def split: if_splits)
  obtain r w1 where r: "resolve (strategies_of opt) w = (r, w1)"
    by (cases "resolve (strategies_of opt) w")
  with False opt assms have "r = Inr (Some b)" "memo' = Name b"
    by (auto simp: evaluate_branch_def split: sum.splits option.splits)
  with r resolve_Some_nonempty show ?thesis by fastforce
qed

lemma evaluate_branch_cached:
  "b \<noteq> [] \<Longrightarrow> evaluate_branch (Name b) param w = (Inr (Name b), Name b, w)"
  by (simp add: evaluate_branch_def)

text \<open>
  Claim C8.  When \<open>getBranch\<close> returns a branch, the client it leaves has that name in
  its \<open>branch\<close> field, and every later call, with any strategy list and in any world,
  returns the same name and leaves client and world as they are: no strategy is
  evaluated again.  A call on a client that already has a name memoized does not write
  the field.  \<^verbatim>\<open>#evaluateBranch\<close> of the other client memoizes in the same way.
\<close>

theorem resolved_branch_is_memoized:
  "(getBranch c (w::'w) = (Inr b, c', w') \<longrightarrow>
      branch c' = Name b \<and> b \<noteq> []
      \<and> (\<forall>opt (w2::'w). getBranch (c'\<lparr>branch_option := opt\<rparr>) w2
                     = (Inr b, c'\<lparr>branch_option := opt\<rparr>, w2))
      \<and> (cached (branch c) \<noteq> None \<longrightarrow> c' = c \<and> w' = w))
   \<and> (evaluate_branch memo param w = (Inr (Name b), memo', w') \<longrightarrow>
      memo' = Name b \<and> b \<noteq> []
      \<and> (\<forall>param2 (w2::'w). evaluate_branch memo' param2 w2 = (Inr (Name b), memo', w2)))"
proof (intro conjI impI)
  assume g: "getBranch c w = (Inr b, c', w')"
  from getBranch_memoizes [OF g] show "branch c' = Name b" and "b \<noteq> []" by simp_all
  from getBranch_memoizes [OF g]
  show "\<forall>opt (w2::'w). getBranch (c'\<lparr>branch_option := opt\<rparr>) w2 = (Inr b, c'\<lparr>branch_option := opt\<rparr>, w2)"
    by (simp add: getBranch_cached)
  assume "cached (branch c) \<noteq> None"
  from getBranch_keeps_memo [OF this g] show "c' = c" and "w' = w" by simp_all
next
  assume e: "evaluate_branch memo param w = (Inr (Name b), memo', w')"
  from evaluate_branch_memoizes [OF e] show "memo' = Name b" and "b \<noteq> []" by simp_all
  from evaluate_branch_memoizes [OF e]
  show "\<forall>param2 (w2::'w). evaluate_branch memo' param2 w2 = (Inr (Name b), memo', w2)"
    by (simp add: evaluate_branch_cached)
qed

theorem resolved_branch_is_memoized_witness:
  "getBranch (example_client main_strategies) 0
     = (Inr ''main'', (example_client main_strategies)\<lparr>branch := Name ''main''\<rparr>, 1)
   \<and> getBranch ((example_client main_strategies)\<lparr>branch := Name ''main'', branch_option := Many empty_strategies\<rparr>) 7
     = (Inr ''main'',
        (example_client main_strategies)\<lparr>branch := Name ''main'', branch_option := Many empty_strategies\<rparr>, 7)
   \<and> evaluate_branch Undefined (Some (Many main_strategies)) 0 = (Inr (Name ''main''), Name ''main'', 1)
   \<and> evaluate_branch (Name ''main'') (Some (Many empty_strategies)) 7
     = (Inr (Name ''main''), Name ''main'', 7)"
proof -
  have g: "getBranch (example_client main_strategies) 0
     = (Inr ''main'', (example_client main_strategies)\<lparr>branch := Name ''main''\<rparr>, 1)"
    by (simp add: getBranch_def example_client_def main_strategies_def)
  have e: "evaluate_branch Undefined (Some (Many main_strategies)) (0::nat)
     = (Inr (Name ''main''), Name ''main'', 1)"
    by (simp add: evaluate_branch_def main_strategies_def)
  note t = resolved_branch_is_memoized [of "example_client main_strategies" 0 "''main''"
      "(example_client main_strategies)\<lparr>branch := Name ''main''\<rparr>" 1
      Undefined "Some (Many main_strategies)" "Name ''main''"]
  note t [THEN conjunct1, THEN mp, OF g, THEN conjunct2, THEN conjunct2, THEN conjunct1]
  then have g2: "getBranch ((example_client main_strategies)\<lparr>branch := Name ''main'', branch_option := Many empty_strategies\<rparr>) 7
     = (Inr ''main'',
        (example_client main_strategies)\<lparr>branch := Name ''main'', branch_option := Many empty_strategies\<rparr>, 7)"
    by blast
  note t [THEN conjunct2, THEN mp, OF e, THEN conjunct2, THEN conjunct2]
  then have e2: "evaluate_branch (Name ''main'') (Some (Many empty_strategies)) 7
     = (Inr (Name ''main''), Name ''main'', 7)"
    by blast
  from g g2 e e2 show ?thesis by simp
qed

section \<open>Properties of the repository\<close>

lemma hydrate_initObject: "initObject ls t v = Some (hydrate ls t v)"
  using initObject_returns [of ls t v] by (auto simp: hydrate_def)

lemma hydrate_object: "hydrate ls t v = Inr r \<Longrightarrow> \<exists>o1. r = JObj o1"
  using initObject_returns [of ls t v] by (auto simp: hydrate_def)

lemma hydrate_truthy: "hydrate ls t v = Inr r \<Longrightarrow> truthy r"
  using hydrate_object [of ls t v r] by auto

lemma read_result_truthy:
  assumes "read rx a table recordId s = (Inr v, s')"
  shows "truthy v"
proof -
  from assms obtain ls response where "hydrate ls table response = Inr v"
    by (auto simp: read_def bind_se_def split: prod.splits sum.splits)
  then show ?thesis by (rule hydrate_truthy)
qed

lemma getBranch_client:
  assumes "getBranch c w = (r, c', w')"
  shows "databaseURL c' = databaseURL c \<and> links c' = links c \<and> branch_option c' = branch_option c"
  using assms by (auto simp: getBranch_def split: option.splits sum.splits prod.splits)

lemma getWorkspaceId_of_url:
  "rx (case databaseURL (s_client s) of None \<Rightarrow> [] | Some u \<Rightarrow> u) = Some (ws, db) \<Longrightarrow> ws \<noteq> []
    \<Longrightarrow> getWorkspaceId rx s = (Inr ws, s)"
  by (simp add: getWorkspaceId_def)

lemma create_returns_what_read_hydrates:
  assumes url: "rx (case databaseURL (s_client s) of None \<Rightarrow> [] | Some u \<Rightarrow> u) = Some (ws, db)"
    and ws: "ws \<noteq> []"
    and br: "getBranch (s_client s) (s_world s) = (Inr b, c, w)"
    and ins: "a (s_sent s @ [InsertRecord ws b table (transformObjectLinks object)]) = Inr response"
    and resp: "\<not> nullish response"
    and get: "a (s_sent s @ [InsertRecord ws b table (transformObjectLinks object),
                            GetRecord ws b table (get_prop response ''id'')]) = Inr found"
  shows "fst (create rx a table object s) = hydrate (links (s_client s)) table found"
proof -
  let ?s1 = "s\<lparr>s_client := c, s_world := w\<rparr>"
  let ?s2 = "?s1\<lparr>s_sent := s_sent s @ [InsertRecord ws b table (transformObjectLinks object)]\<rparr>"
  from getBranch_memoizes [OF br] have memo: "branch c = Name b" "b \<noteq> []" by simp_all
  from getBranch_client [OF br] have same: "databaseURL c = databaseURL (s_client s)"
    "links c = links (s_client s)" by simp_all
  have w1: "getWorkspaceId rx s = (Inr ws, s)"
    using url ws by (rule getWorkspaceId_of_url)
  have w2: "getWorkspaceId rx ?s2 = (Inr ws, ?s2)"
    using url ws same by (simp add: getWorkspaceId_def)
  have b1: "client_getBranch s = (Inr b, ?s1)"
    using br by (simp add: client_getBranch_def)
  have b2: "client_getBranch ?s2 = (Inr b, ?s2)"
    using memo by (simp add: client_getBranch_def getBranch_cached)
  have rd: "read rx a table (get_prop response ''id'') ?s2 =
      (hydrate (links (s_client s)) table found,
       ?s2\<lparr>s_sent := s_sent s @ [InsertRecord ws b table (transformObjectLinks object),
                                GetRecord ws b table (get_prop response ''id'')]\<rparr>)"
    using get same by (simp add: read_def bind_se_def w2 b2 call_def)
  show ?thesis
  proof (cases "hydrate (links (s_client s)) table found")
    case (Inl e)
    with ins resp show ?thesis
      by (simp add: create_def bind_se_def w1 b1 call_def prop_of_def rd)
  next
    case (Inr r)
    then have "truthy r" by (rule hydrate_truthy)
    with Inr ins resp show ?thesis
      by (simp add: create_def bind_se_def w1 b1 call_def prop_of_def rd)
  qed
qed

text \<open>
  Claim C9, evaluated on the code.  The insert succeeds and the read that follows finds
  nothing (the API answers \<^verbatim>\<open>null\<close>).  \<open>create\<close> has sent the insert and then the read
  of the inserted id, as the claim says; but it does not throw
  \<^verbatim>\<open>The server failed to save the record\<close>: \<open>read\<close> hands the answer to \<open>initObject\<close>, which
  makes a record with the three methods out of anything, so \<^verbatim>\<open>!finalObject\<close> never holds and
  \<open>create\<close> returns that empty record.
\<close>

theorem create_keeps_unsaved_record:
  "fst (create example_regex lost_record_api ''users'' (JObj [(''name'', JStr ''Ada'')])
        (example_session main_strategies))
     = Inr (JObj [(''read'', JFun (ReadRecord ''users'' JUndef)),
                  (''update'', JFun (UpdateRecord ''users'' JUndef)),
                  (''delete'', JFun (DeleteRecord ''users'' JUndef))])
   \<and> s_sent (snd (create example_regex lost_record_api ''users'' (JObj [(''name'', JStr ''Ada'')])
        (example_session main_strategies)))
     = [InsertRecord ''ws'' ''main'' ''users'' (JObj [(''name'', JStr ''Ada'')]),
        GetRecord ''ws'' ''main'' ''users'' (JStr ''rec_1'')]"
  by code_simp

section \<open>Properties of page navigation\<close>

lemma meta_cursor:
  "meta_page_prop (JObj [(''page'', JObj [(''cursor'', cursor), (''more'', mr)])]) ''cursor'' s
     = (Inr cursor, s)"
  by (simp add: meta_page_prop_def prop_of_def bind_se_def)

lemma getDatabaseId_of_url:
  "rx (case databaseURL (s_client s) of None \<Rightarrow> [] | Some u \<Rightarrow> u) = Some (ws, db) \<Longrightarrow> db \<noteq> []
    \<Longrightarrow> getDatabaseId rx s = (Inr db, s)"
  by (simp add: getDatabaseId_def)

lemma getPaginated_sends:
  assumes url: "rx (case databaseURL (s_client s) of None \<Rightarrow> [] | Some u \<Rightarrow> u) = Some (ws, db)"
    and ws: "ws \<noteq> []" and db: "db \<noteq> []"
    and br: "getBranch (s_client s) (s_world s) = (Inr b, c, w)"
  shows "s_sent (snd (Query_getPaginated rx a q page s))
           = s_sent s @ [QueryTable ws b (lq_table q) (query_body q page)]"
proof -
  have w1: "getWorkspaceId rx s = (Inr ws, s)" using url ws by (rule getWorkspaceId_of_url)
  have d1: "getDatabaseId rx s = (Inr db, s)" using url db by (rule getDatabaseId_of_url)
  have b1: "client_getBranch s = (Inr b, s\<lparr>s_client := c, s_world := w\<rparr>)"
    using br by (simp add: client_getBranch_def)
  show ?thesis
    by (simp add: Query_getPaginated_def bind_se_def w1 d1 b1 call_def prop_of_def map_records_def
        split: sum.splits json.splits)
qed

text \<open>
  Claim C1, as the code has it.  For a page whose \<^verbatim>\<open>meta\<close> is
  \<^verbatim>\<open>{page: {cursor, more}}\<close>, whatever \<^verbatim>\<open>more\<close> is: \<^verbatim>\<open>nextPage(size, offset)\<close> is one
  paginated query of the page's query with \<^verbatim>\<open>page = {size, offset, after: cursor}\<close>, and
  \<^verbatim>\<open>previousPage\<close> one with \<^verbatim>\<open>before: cursor\<close>; when workspace, database and branch
  resolve, that query is sent to the API as it is, and the page returned is the one the
  API answers.  On a query itself, in both files, \<^verbatim>\<open>nextPage\<close> and \<^verbatim>\<open>previousPage\<close> are
  \<^verbatim>\<open>firstPage\<close>: a request with \<^verbatim>\<open>{size, offset}\<close> and no cursor.
\<close>

theorem page_navigation_requests:
  assumes "lp_meta p = JObj [(''page'', JObj [(''cursor'', cursor), (''more'', mr)])]"
  shows "Page_nextPage rx a p sz offset s
           = Query_getPaginated rx a (lp_query p)
               (JObj [(''size'', sz), (''offset'', offset), (''after'', cursor)]) s
       \<and> Page_previousPage rx a p sz offset s
           = Query_getPaginated rx a (lp_query p)
               (JObj [(''size'', sz), (''offset'', offset), (''before'', cursor)]) s
       \<and> (\<forall>ws db b c w page.
             rx (case databaseURL (s_client s) of None \<Rightarrow> [] | Some u \<Rightarrow> u) = Some (ws, db)
             \<and> ws \<noteq> [] \<and> db \<noteq> [] \<and> getBranch (s_client s) (s_world s) = (Inr b, c, w) \<longrightarrow>
             s_sent (snd (Query_getPaginated rx a (lp_query p) page s))
               = s_sent s @ [QueryTable ws b (lq_table (lp_query p)) (query_body (lp_query p) page)])
       \<and> Query_nextPage rx a (lp_query p) sz offset s
           = Query_getPaginated rx a (lp_query p) (JObj [(''size'', sz), (''offset'', offset)]) s
       \<and> Query_previousPage rx a (lp_query p) sz offset s
           = Query_getPaginated rx a (lp_query p) (JObj [(''size'', sz), (''offset'', offset)]) s
       \<and> nextPage repo q sz offset hist = firstPage repo q sz offset hist
       \<and> previousPage repo q sz offset hist = firstPage repo q sz offset hist
       \<and> o_pagination (q_data (last (fst (snd (nextPage repo q sz offset hist)))))
           = JObj [(''size'', sz), (''offset'', offset)]"
proof -
  have n: "Page_nextPage rx a p sz offset s
           = Query_getPaginated rx a (lp_query p)
               (JObj [(''size'', sz), (''offset'', offset), (''after'', cursor)]) s"
    by (simp add: Page_nextPage_def assms bind_se_def meta_cursor page_object_def)
  have pr: "Page_previousPage rx a p sz offset s
           = Query_getPaginated rx a (lp_query p)
               (JObj [(''size'', sz), (''offset'', offset), (''before'', cursor)]) s"
    by (simp add: Page_previousPage_def assms bind_se_def meta_cursor page_object_def)
  have snt: "\<forall>ws db b c w page.
             rx (case databaseURL (s_client s) of None \<Rightarrow> [] | Some u \<Rightarrow> u) = Some (ws, db)
             \<and> ws \<noteq> [] \<and> db \<noteq> [] \<and> getBranch (s_client s) (s_world s) = (Inr b, c, w) \<longrightarrow>
             s_sent (snd (Query_getPaginated rx a (lp_query p) page s))
               = s_sent s @ [QueryTable ws b (lq_table (lp_query p)) (query_body (lp_query p) page)]"
  proof (intro allI impI)
    fix ws db b c w page
    assume h: "rx (case databaseURL (s_client s) of None \<Rightarrow> [] | Some u \<Rightarrow> u) = Some (ws, db)
             \<and> ws \<noteq> [] \<and> db \<noteq> [] \<and> getBranch (s_client s) (s_world s) = (Inr b, c, w)"
    then have h1: "rx (case databaseURL (s_client s) of None \<Rightarrow> [] | Some u \<Rightarrow> u) = Some (ws, db)"
      and h2: "ws \<noteq> []" and h3: "db \<noteq> []"
      and h4: "getBranch (s_client s) (s_world s) = (Inr b, c, w)" by simp_all
    show "s_sent (snd (Query_getPaginated rx a (lp_query p) page s))
               = s_sent s @ [QueryTable ws b (lq_table (lp_query p)) (query_body (lp_query p) page)]"
      by (rule getPaginated_sends [where rx = rx and s = s, OF h1 h2 h3 h4])
  qed
  have qn: "Query_nextPage rx a (lp_query p) sz offset s
           = Query_getPaginated rx a (lp_query p) (JObj [(''size'', sz), (''offset'', offset)]) s"
    by (simp add: Query_nextPage_def Query_firstPage_def)
  have qp: "Query_previousPage rx a (lp_query p) sz offset s
           = Query_getPaginated rx a (lp_query p) (JObj [(''size'', sz), (''offset'', offset)]) s"
    by (simp add: Query_previousPage_def Query_firstPage_def)
  have nn: "nextPage repo q sz offset hist = firstPage repo q sz offset hist"
    by (simp add: nextPage_def)
  have np: "previousPage repo q sz offset hist = firstPage repo q sz offset hist"
    by (simp add: previousPage_def)
  have pg: "o_pagination (q_data (last (fst (snd (nextPage repo q sz offset hist)))))
           = JObj [(''size'', sz), (''offset'', offset)]"
    by (simp add: nextPage_def firstPage_def getPaginated_def pagination_of_def ctor_defs
        split: prod.splits)
  from n pr snt qn qp nn np pg show ?thesis by (intro conjI)
qed

theorem page_navigation_requests_witness:
  "s_sent (snd (Page_nextPage example_regex one_record_api last_page (JNum 20) JUndef
        (example_session main_strategies)))
     = [QueryTable ''ws'' ''main'' ''users''
          (JObj [(''filter'', JObj []), (''sort'', JUndef),
                 (''page'', JObj [(''size'', JNum 20), (''offset'', JUndef),
                                  (''after'', JStr ''c1'')])])]"
proof -
  let ?s = "example_session main_strategies"
  have m: "lp_meta last_page = JObj [(''page'', JObj [(''cursor'', JStr ''c1''), (''more'', JBool False)])]"
    by (simp add: last_page_def)
  note t = page_navigation_requests [OF m, of example_regex one_record_api "JNum 20" JUndef ?s]
  have h: "example_regex (case databaseURL (s_client ?s) of None \<Rightarrow> [] | Some u \<Rightarrow> u) = Some (''ws'', ''shop'')
      \<and> ''ws'' \<noteq> [] \<and> ''shop'' \<noteq> []
      \<and> getBranch (s_client ?s) (s_world ?s)
          = (Inr ''main'', (example_client main_strategies)\<lparr>branch := Name ''main''\<rparr>, 1)"
    by (simp add: example_session_def example_client_def example_regex_def getBranch_def
        main_strategies_def)
  from t have n: "Page_nextPage example_regex one_record_api last_page (JNum 20) JUndef ?s
           = Query_getPaginated example_regex one_record_api (lp_query last_page)
               (JObj [(''size'', JNum 20), (''offset'', JUndef), (''after'', JStr ''c1'')]) ?s"
    by (rule conjunct1)
  note snt = t [THEN conjunct2, THEN conjunct2, THEN conjunct1, rule_format, OF h,
      of "JObj [(''size'', JNum 20), (''offset'', JUndef), (''after'', JStr ''c1'')]"]
  have "s_sent (snd (Page_nextPage example_regex one_record_api last_page (JNum 20) JUndef ?s))
      = s_sent ?s @ [QueryTable ''ws'' ''main'' (lq_table (lp_query last_page))
          (query_body (lp_query last_page)
             (JObj [(''size'', JNum 20), (''offset'', JUndef), (''after'', JStr ''c1'')]))]"
    unfolding n by (rule snt)
  then show ?thesis
    by (simp add: last_page_def users_query_def query_body_def compactObject_def
        example_session_def)
qed

text \<open>
  Claim C1 as the spec words it fails.  On a page that reports \<^verbatim>\<open>more = false\<close>,
  \<^verbatim>\<open>nextPage()\<close> still sends a request (with \<^verbatim>\<open>after\<close> set to the page's cursor) and
  returns what the API answers, here a page with one record: \<^verbatim>\<open>more\<close> is not looked at
  and no empty terminal page is made.  And \<^verbatim>\<open>nextPage()\<close> on a query is \<^verbatim>\<open>firstPage()\<close>:
  its request has no cursor, it starts over from the first page.
\<close>

theorem next_page_ignores_more:
  "fst (Page_hasNextPage last_page ()) = Inr (JBool False)
   \<and> s_sent (snd (Page_nextPage example_regex one_record_api last_page JUndef JUndef
        (example_session main_strategies)))
     = [QueryTable ''ws'' ''main'' ''users''
          (JObj [(''filter'', JObj []), (''sort'', JUndef),
                 (''page'', JObj [(''size'', JUndef), (''offset'', JUndef),
                                  (''after'', JStr ''c1'')])])]
   \<and> map_sum id lp_records (fst (Page_nextPage example_regex one_record_api last_page JUndef JUndef
        (example_session main_strategies)))
     = Inr [JObj [(''id'', JStr ''r1''),
                  (''read'', JFun (ReadRecord ''users'' (JStr ''r1''))),
                  (''update'', JFun (UpdateRecord ''users'' (JStr ''r1''))),
                  (''delete'', JFun (DeleteRecord ''users'' (JStr ''r1'')))]]
   \<and> map (\<lambda>q. o_pagination (q_data q))
        (fst (snd (nextPage one_record_repository (base_query ''users'') JUndef JUndef [])))
     = [JObj [(''size'', JUndef), (''offset'', JUndef)]]
   \<and> nextPage one_record_repository (base_query ''users'') JUndef JUndef []
     = firstPage one_record_repository (base_query ''users'') JUndef JUndef []"
  by code_simp

end
